theory Spec2Isabelle
  imports Main "HOL-Library.AList"
begin

section \<open>Data model\<close>

text \<open>
  The module \<^verbatim>\<open>swiplserver/prologserver.py\<close> talks to a Prolog process over a socket.
  Replies are JSON texts in the ``Prolog json format'' of the module: an atom or a
  variable is a string, a number is a number, a list is a list, and a compound term is
  an object with the two keys \<^verbatim>\<open>functor\<close> (a string) and \<^verbatim>\<open>args\<close> (a list).

  Python text (\<^verbatim>\<open>str\<close>) is represented by its UTF-8 encoding, a \<^typ>\<open>string\<close>; a
  \<^verbatim>\<open>bytes\<close> value is a \<^typ>\<open>string\<close> too. A character of a text is the group of
  bytes that encodes one code point. Numbers are integers: floating point values are
  left out.
\<close>

datatype json =
    JStr string
  | JInt int
  | JList "json list"
  | JFunctor string "json list"

text \<open>
  The classes of \<^verbatim>\<open>PrologError\<close> and its subclasses. An instance keeps the inner
  term of the \<^verbatim>\<open>exception(Inner)\<close> reply in \<^verbatim>\<open>_exception_json\<close>.
\<close>

datatype prolog_class =
    PrologError
  | PrologLaunchError
  | PrologQueryTimeoutError
  | PrologConnectionFailedError
  | PrologNoQueryError
  | PrologQueryCancelledError
  | PrologResultNotAvailableError

datatype error =
    IndexError
  | KeyError
  | TypeError
  | ValueError
  | AssertionError
  | AttributeError
  | OSError
  | UnicodeDecodeError
  | JSONDecodeError
  | Raised prolog_class json

section \<open>Python primitives\<close>

text \<open>
  The characters of a text: the first byte of a character tells how many bytes it has.
\<close>

definition utf8_width :: "char \<Rightarrow> nat" where
  "utf8_width c =
     (let n = (of_char c :: nat) in
      if n < 0xC0 then 1 else if n < 0xE0 then 2 else if n < 0xF0 then 3 else 4)"

function chars_of :: "string \<Rightarrow> string list" where
  "chars_of [] = []"
| "chars_of (c # s) = (c # take (utf8_width c - 1) s) # chars_of (drop (utf8_width c - 1) s)"
  by pat_completeness auto
termination
  by (relation "measure length") auto

text \<open>
  The character tests \<^verbatim>\<open>c.isupper()\<close>, \<^verbatim>\<open>c.isalpha()\<close>, \<^verbatim>\<open>c.isalnum()\<close> and
  \<^verbatim>\<open>c.isspace()\<close> of Python consult the Unicode character database, which belongs to
  the interpreter and not to the module. For an ASCII character the answer is written
  out below; for any other character it is taken from the parameter \<open>U\<close>, which says
  of a character (given by its bytes) whether it is upper case, alphabetic, numeric
  (decimal, digit or numeric) and white space, and which decimal digit it is, if any.
\<close>

record unicode =
  uc_upper :: "string \<Rightarrow> bool"
  uc_alpha :: "string \<Rightarrow> bool"
  uc_numeric :: "string \<Rightarrow> bool"
  uc_space :: "string \<Rightarrow> bool"
  uc_decimal :: "string \<Rightarrow> nat option"

fun ascii_code :: "string \<Rightarrow> nat option" where
  "ascii_code [b] = (if (of_char b :: nat) < 128 then Some (of_char b) else None)"
| "ascii_code c = None"

definition isupper :: "unicode \<Rightarrow> string \<Rightarrow> bool" where
  "isupper U c =
     (case ascii_code c of
        Some n \<Rightarrow> 65 \<le> n \<and> n \<le> 90
      | None \<Rightarrow> uc_upper U c)"

definition isalpha :: "unicode \<Rightarrow> string \<Rightarrow> bool" where
  "isalpha U c =
     (case ascii_code c of
        Some n \<Rightarrow> (65 \<le> n \<and> n \<le> 90) \<or> (97 \<le> n \<and> n \<le> 122)
      | None \<Rightarrow> uc_alpha U c)"

text \<open>
  A character is alphanumeric when one of \<^verbatim>\<open>isalpha\<close>, \<^verbatim>\<open>isdecimal\<close>,
  \<^verbatim>\<open>isdigit\<close> and \<^verbatim>\<open>isnumeric\<close> holds.
\<close>

definition isalnum :: "unicode \<Rightarrow> string \<Rightarrow> bool" where
  "isalnum U c =
     (case ascii_code c of
        Some n \<Rightarrow> (65 \<le> n \<and> n \<le> 90) \<or> (97 \<le> n \<and> n \<le> 122) \<or> (48 \<le> n \<and> n \<le> 57)
      | None \<Rightarrow> uc_alpha U c \<or> uc_numeric U c)"

definition isspace :: "unicode \<Rightarrow> string \<Rightarrow> bool" where
  "isspace U c =
     (case ascii_code c of
        Some n \<Rightarrow> (9 \<le> n \<and> n \<le> 13) \<or> (28 \<le> n \<and> n \<le> 32)
      | None \<Rightarrow> uc_space U c)"

text \<open>\<^verbatim>\<open>s.isalnum()\<close>: every character is alphanumeric and there is at least one.\<close>

definition str_isalnum :: "unicode \<Rightarrow> string \<Rightarrow> bool" where
  "str_isalnum U s = (chars_of s \<noteq> [] \<and> list_all (isalnum U) (chars_of s))"

text \<open>\<^verbatim>\<open>s.translate({ord(c): ''})\<close>: the text without its characters \<open>c\<close>.\<close>

definition translate_delete :: "string \<Rightarrow> string \<Rightarrow> string" where
  "translate_delete c s = concat (filter (\<lambda>x. x \<noteq> c) (chars_of s))"

text \<open>An ASCII decimal digit, as a byte.\<close>

definition isdigit :: "char \<Rightarrow> bool" where
  "isdigit c = (let n = (of_char c :: nat) in 48 \<le> n \<and> n \<le> 57)"

text \<open>\<^verbatim>\<open>str(n)\<close> for an integer.\<close>

definition digit_char :: "nat \<Rightarrow> char" where
  "digit_char d = char_of (48 + d)"

function show_nat :: "nat \<Rightarrow> string" where
  "show_nat n = (if n < 10 then [digit_char n] else show_nat (n div 10) @ [digit_char (n mod 10)])"
  by pat_completeness auto
termination
  by (relation "measure id") auto

declare show_nat.simps [simp del]

definition show_int :: "int \<Rightarrow> string" where
  "show_int i = (if i < 0 then CHR ''-'' # show_nat (nat (- i)) else show_nat (nat i))"

text \<open>\<^verbatim>\<open>sep.join(xs)\<close>.\<close>

fun join :: "string \<Rightarrow> string list \<Rightarrow> string" where
  "join sep [] = []"
| "join sep [x] = x"
| "join sep (x # y # ys) = x @ sep @ join sep (y # ys)"

text \<open>
  A list comprehension over calls that may raise: the elements are evaluated in order
  and the first exception leaves the comprehension.
\<close>

fun sequence :: "(error + 'a) list \<Rightarrow> error + 'a list" where
  "sequence [] = Inr []"
| "sequence (Inl e # rs) = Inl e"
| "sequence (Inr x # rs) = (case sequence rs of Inl e \<Rightarrow> Inl e | Inr xs \<Rightarrow> Inr (x # xs))"

text \<open>
  \<^verbatim>\<open>str(x)\<close> and \<^verbatim>\<open>"{}".format(x)\<close> for a string or an integer. The module applies
  them to the result of \<^verbatim>\<open>quote_prolog_identifier\<close> on a string or a number only;
  Python's rendering of a list or of an object is not modelled.
\<close>

fun py_str :: "json \<Rightarrow> string" where
  "py_str (JStr s) = s"
| "py_str (JInt n) = show_int n"

section \<open>Term model\<close>

definition is_prolog_functor :: "json \<Rightarrow> bool" where
  "is_prolog_functor json_term = (case json_term of JFunctor f xs \<Rightarrow> True | _ \<Rightarrow> False)"

definition is_prolog_list :: "json \<Rightarrow> bool" where
  "is_prolog_list json_term = (case json_term of JList xs \<Rightarrow> True | _ \<Rightarrow> False)"

text \<open>
  \<^verbatim>\<open>isinstance(json_term, str) and (json_term[0].isupper() or json_term[0] == "_")\<close>:
  indexing the empty string raises \<^verbatim>\<open>IndexError\<close>.
\<close>

definition is_prolog_variable :: "unicode \<Rightarrow> json \<Rightarrow> error + bool" where
  "is_prolog_variable U json_term =
     (case json_term of
        JStr s \<Rightarrow>
          (case chars_of s of
             [] \<Rightarrow> Inl IndexError
           | c # cs \<Rightarrow> Inr (isupper U c \<or> c = ''_''))
      | _ \<Rightarrow> Inr False)"

definition is_prolog_atom :: "unicode \<Rightarrow> json \<Rightarrow> error + bool" where
  "is_prolog_atom U json_term =
     (case json_term of
        JStr s \<Rightarrow> (case is_prolog_variable U json_term of Inl e \<Rightarrow> Inl e | Inr b \<Rightarrow> Inr (\<not> b))
      | _ \<Rightarrow> Inr False)"

text \<open>\<^verbatim>\<open>json_term["functor"]\<close> and \<^verbatim>\<open>json_term["args"]\<close>.\<close>

definition get_functor :: "json \<Rightarrow> error + json" where
  "get_functor json_term = (case json_term of JFunctor f xs \<Rightarrow> Inr (JStr f) | _ \<Rightarrow> Inl TypeError)"

definition prolog_name :: "unicode \<Rightarrow> json \<Rightarrow> error + json" where
  "prolog_name U json_term =
     (case is_prolog_atom U json_term of
        Inl e \<Rightarrow> Inl e
      | Inr True \<Rightarrow> Inr json_term
      | Inr False \<Rightarrow>
          (case is_prolog_variable U json_term of
             Inl e \<Rightarrow> Inl e
           | Inr True \<Rightarrow> Inr json_term
           | Inr False \<Rightarrow> get_functor json_term))"

definition prolog_args :: "json \<Rightarrow> error + json" where
  "prolog_args json_term = (case json_term of JFunctor f xs \<Rightarrow> Inr (JList xs) | _ \<Rightarrow> Inl TypeError)"

text \<open>\<^verbatim>\<open>"'{}'".format(identifier)\<close>.\<close>

definition quoted :: "string \<Rightarrow> string" where
  "quoted s = CHR 0x27 # s @ [CHR 0x27]"

definition quote_prolog_identifier :: "unicode \<Rightarrow> json \<Rightarrow> error + json" where
  "quote_prolog_identifier U identifier =
     (case is_prolog_atom U identifier of
        Inl e \<Rightarrow> Inl e
      | Inr False \<Rightarrow> Inr identifier
      | Inr True \<Rightarrow>
          (case is_prolog_atom U identifier of
             Inl e \<Rightarrow> Inl e
           | Inr False \<Rightarrow> Inr identifier
           | Inr True \<Rightarrow>
               (case identifier of
                  JStr s \<Rightarrow>
                    (if length (chars_of s) = 0 then Inr (JStr (quoted s))
                     else (case chars_of s of
                             [] \<Rightarrow> Inl IndexError
                           | c # cs \<Rightarrow>
                               if \<not> isalpha U c \<or> \<not> str_isalnum U (translate_delete ''_'' s)
                               then Inr (JStr (quoted s))
                               else Inr identifier))
                | _ \<Rightarrow> Inr identifier)))"

fun json_to_prolog :: "unicode \<Rightarrow> json \<Rightarrow> error + string" where
  "json_to_prolog U (JFunctor f xs) =
     (case sequence (map (json_to_prolog U) xs) of
        Inl e \<Rightarrow> Inl e
      | Inr argsString \<Rightarrow>
          (case prolog_name U (JFunctor f xs) of
             Inl e \<Rightarrow> Inl e
           | Inr n \<Rightarrow>
               (case quote_prolog_identifier U n of
                  Inl e \<Rightarrow> Inl e
                | Inr q \<Rightarrow> Inr (py_str q @ ''('' @ join '', '' argsString @ '')''))))"
| "json_to_prolog U (JList xs) =
     (case sequence (map (json_to_prolog U) xs) of
        Inl e \<Rightarrow> Inl e
      | Inr listString \<Rightarrow> Inr (''['' @ join '', '' listString @ '']''))"
| "json_to_prolog U (JStr s) =
     (case quote_prolog_identifier U (JStr s) of Inl e \<Rightarrow> Inl e | Inr q \<Rightarrow> Inr (py_str q))"
| "json_to_prolog U (JInt n) =
     (case quote_prolog_identifier U (JInt n) of Inl e \<Rightarrow> Inl e | Inr q \<Rightarrow> Inr (py_str q))"

text \<open>
  The quoting rule as the specification words it (\<^verbatim>\<open>requiresQuoting\<close>): the text
  is empty, does not start with a letter, or contains a character other than letters,
  digits and underscore.
\<close>

definition spec_requiresQuoting :: "unicode \<Rightarrow> string \<Rightarrow> bool" where
  "spec_requiresQuoting U s =
     (s = [] \<or> \<not> isalpha U (hd (chars_of s)) \<or>
      \<not> list_all (\<lambda>x. isalnum U x \<or> x = ''_'') (chars_of s))"

section \<open>Containers\<close>

text \<open>\<^verbatim>\<open>len(x)\<close>, \<^verbatim>\<open>x[i]\<close> and \<^verbatim>\<open>for y in x\<close> on a decoded value.\<close>

definition py_len :: "json \<Rightarrow> error + nat" where
  "py_len x =
     (case x of
        JStr s \<Rightarrow> Inr (length (chars_of s))
      | JInt n \<Rightarrow> Inl TypeError
      | JList xs \<Rightarrow> Inr (length xs)
      | JFunctor f xs \<Rightarrow> Inr 2)"

definition py_index :: "json \<Rightarrow> nat \<Rightarrow> error + json" where
  "py_index x i =
     (case x of
        JStr s \<Rightarrow> (if i < length (chars_of s) then Inr (JStr (chars_of s ! i)) else Inl IndexError)
      | JInt n \<Rightarrow> Inl TypeError
      | JList xs \<Rightarrow> (if i < length xs then Inr (xs ! i) else Inl IndexError)
      | JFunctor f xs \<Rightarrow> Inl KeyError)"

text \<open>
  Iterating over an object yields its keys. Their order is that of the reply text; the
  functions below raise on the first key whichever it is.
\<close>

definition py_iter :: "json \<Rightarrow> error + json list" where
  "py_iter x =
     (case x of
        JStr s \<Rightarrow> Inr (map JStr (chars_of s))
      | JInt n \<Rightarrow> Inl TypeError
      | JList xs \<Rightarrow> Inr xs
      | JFunctor f xs \<Rightarrow> Inr [JStr ''functor'', JStr ''args''])"

section \<open>Exceptions of the module\<close>

text \<open>
  \<^verbatim>\<open>raise cls(exception_json)\<close>: the constructor \<^verbatim>\<open>PrologError.__init__\<close> asserts
  that its argument is \<^verbatim>\<open>exception(Inner)\<close> with one argument, keeps \<^verbatim>\<open>Inner\<close> and
  renders it with \<^verbatim>\<open>self.prolog()\<close> for the message. The value is the exception that
  leaves the \<^verbatim>\<open>raise\<close> statement: the new instance, or what the constructor raised.
\<close>

definition PrologError_init :: "unicode \<Rightarrow> prolog_class \<Rightarrow> json \<Rightarrow> error" where
  "PrologError_init U cls exception_json =
     (case prolog_name U exception_json of
        Inl e \<Rightarrow> e
      | Inr n \<Rightarrow>
          if n \<noteq> JStr ''exception'' then AssertionError
          else (case prolog_args exception_json of
                  Inl e \<Rightarrow> e
                | Inr a \<Rightarrow>
                    (case py_len a of
                       Inl e \<Rightarrow> e
                     | Inr k \<Rightarrow>
                         if k \<noteq> 1 then AssertionError
                         else (case py_index a 0 of
                                 Inl e \<Rightarrow> e
                               | Inr inner \<Rightarrow>
                                   (case json_to_prolog U inner of
                                      Inl e \<Rightarrow> e
                                    | Inr message \<Rightarrow> Raised cls inner)))))"

text \<open>
  The methods \<^verbatim>\<open>json()\<close>, \<^verbatim>\<open>prolog()\<close> and \<^verbatim>\<open>is_prolog_exception(term_name)\<close>
  of an instance; the built-in exceptions of Python have none of them.
\<close>

fun PrologError_json :: "error \<Rightarrow> error + json" where
  "PrologError_json (Raised cls inner) = Inr inner"
| "PrologError_json _ = Inl AttributeError"

fun PrologError_prolog :: "unicode \<Rightarrow> error \<Rightarrow> error + string" where
  "PrologError_prolog U (Raised cls inner) = json_to_prolog U inner"
| "PrologError_prolog U _ = Inl AttributeError"

fun PrologError_is_prolog_exception :: "unicode \<Rightarrow> error \<Rightarrow> string \<Rightarrow> error + bool" where
  "PrologError_is_prolog_exception U (Raised cls inner) term_name =
     (case prolog_name U inner of Inl e \<Rightarrow> Inl e | Inr n \<Rightarrow> Inr (n = JStr term_name))"
| "PrologError_is_prolog_exception U _ term_name = Inl AttributeError"

section \<open>Text and bytes\<close>

abbreviation NL :: char where
  "NL \<equiv> CHR 0x0A"

text \<open>
  \<^verbatim>\<open>s.strip()\<close> removes the white space characters at both ends of the text;
  \<^verbatim>\<open>s.rstrip(chars)\<close> removes the characters of \<open>chars\<close> at its end. The module
  calls \<^verbatim>\<open>rstrip\<close> with ASCII characters only, each of them one byte.
\<close>

definition strip :: "unicode \<Rightarrow> string \<Rightarrow> string" where
  "strip U s =
     concat (rev (dropWhile (isspace U) (rev (dropWhile (isspace U) (chars_of s)))))"

definition rstrip :: "string \<Rightarrow> string \<Rightarrow> string" where
  "rstrip chars s = rev (dropWhile (\<lambda>c. c \<in> set chars) (rev s))"

text \<open>
  \<^verbatim>\<open>s.encode("utf-8")\<close> and \<^verbatim>\<open>b.decode("utf-8")\<close>. A text is represented by its
  encoding, so encoding changes nothing and decoding checks that the bytes are
  well-formed UTF-8.
\<close>

definition encode_utf8 :: "string \<Rightarrow> string" where
  "encode_utf8 s = s"

definition byte_in :: "nat \<Rightarrow> nat \<Rightarrow> char \<Rightarrow> bool" where
  "byte_in lo hi c = (lo \<le> (of_char c :: nat) \<and> (of_char c :: nat) \<le> hi)"

fun utf8_valid :: "string \<Rightarrow> bool" where
  "utf8_valid [] = True"
| "utf8_valid (b # bs) =
     (if byte_in 0x00 0x7F b then utf8_valid bs
      else if byte_in 0xC2 0xDF b then
        (case bs of c1 # r \<Rightarrow> byte_in 0x80 0xBF c1 \<and> utf8_valid r | _ \<Rightarrow> False)
      else if byte_in 0xE0 0xEF b then
        (case bs of
           c1 # c2 # r \<Rightarrow>
             byte_in (if b = CHR 0xE0 then 0xA0 else 0x80) (if b = CHR 0xED then 0x9F else 0xBF) c1 \<and>
             byte_in 0x80 0xBF c2 \<and> utf8_valid r
         | _ \<Rightarrow> False)
      else if byte_in 0xF0 0xF4 b then
        (case bs of
           c1 # c2 # c3 # r \<Rightarrow>
             byte_in (if b = CHR 0xF0 then 0x90 else 0x80) (if b = CHR 0xF4 then 0x8F else 0xBF) c1 \<and>
             byte_in 0x80 0xBF c2 \<and> byte_in 0x80 0xBF c3 \<and> utf8_valid r
         | _ \<Rightarrow> False)
      else False)"

definition decode_utf8 :: "string \<Rightarrow> error + string" where
  "decode_utf8 b = (if utf8_valid b then Inr b else Inl UnicodeDecodeError)"

text \<open>
  \<^verbatim>\<open>int(s)\<close>: white space around the literal, a sign, decimal digits with single
  underscores between them. In a text built with \<^verbatim>\<open>chr\<close> from bytes (the flag
  \<open>latin1\<close>) the code points 0x85 and 0xA0 are white space too.
\<close>

definition int_space :: "bool \<Rightarrow> char \<Rightarrow> bool" where
  "int_space latin1 c =
     (let n = (of_char c :: nat) in
      (9 \<le> n \<and> n \<le> 13) \<or> n = 32 \<or> (latin1 \<and> (n = 0x85 \<or> n = 0xA0)))"

definition digit_val :: "char \<Rightarrow> nat" where
  "digit_val c = of_char c - 48"

fun int_digits :: "nat \<Rightarrow> string \<Rightarrow> nat option" where
  "int_digits acc [] = Some acc"
| "int_digits acc (c # cs) =
     (if isdigit c then int_digits (10 * acc + digit_val c) cs
      else if c = CHR ''_'' then
        (case cs of [] \<Rightarrow> None | d # ds \<Rightarrow> if isdigit d then int_digits acc cs else None)
      else None)"

definition int_literal :: "string \<Rightarrow> nat option" where
  "int_literal s = (case s of [] \<Rightarrow> None | c # cs \<Rightarrow> if isdigit c then int_digits 0 s else None)"

definition py_int :: "bool \<Rightarrow> string \<Rightarrow> error + int" where
  "py_int latin1 s =
     (let t = rev (dropWhile (int_space latin1) (rev (dropWhile (int_space latin1) s))) in
      case t of
        [] \<Rightarrow> Inl ValueError
      | c # cs \<Rightarrow>
          if c = CHR ''-'' then
            (case int_literal cs of None \<Rightarrow> Inl ValueError | Some n \<Rightarrow> Inr (- int n))
          else if c = CHR ''+'' then
            (case int_literal cs of None \<Rightarrow> Inl ValueError | Some n \<Rightarrow> Inr (int n))
          else (case int_literal t of None \<Rightarrow> Inl ValueError | Some n \<Rightarrow> Inr (int n)))"

text \<open>
  \<^verbatim>\<open>int(s)\<close> for a text that was decoded from UTF-8: a white space character beyond
  ASCII counts as a blank and a decimal digit beyond ASCII as the ASCII digit of its
  value; any other character beyond ASCII is no part of a number.
\<close>

definition ascii_number_text :: "unicode \<Rightarrow> string \<Rightarrow> string" where
  "ascii_number_text U s =
     concat (map (\<lambda>c. case ascii_code c of
                         Some n \<Rightarrow> c
                       | None \<Rightarrow>
                           if uc_space U c then '' ''
                           else (case uc_decimal U c of
                                   Some d \<Rightarrow> if d < 10 then [digit_char d] else ''?''
                                 | None \<Rightarrow> ''?''))
                 (chars_of s))"

definition py_int_text :: "unicode \<Rightarrow> string \<Rightarrow> error + int" where
  "py_int_text U s = py_int False (ascii_number_text U s)"

section \<open>Sockets\<close>

text \<open>
  A socket as the module sees it. \<open>incoming\<close> lists the results of the coming
  \<^verbatim>\<open>recv(4096)\<close> calls: bytes, or an \<^verbatim>\<open>OSError\<close>; once the list is used up the peer
  has closed the connection and every \<^verbatim>\<open>recv\<close> returns the empty bytes.
  \<open>sent\<close> lists the arguments of the \<^verbatim>\<open>sendall\<close> calls so far.
\<close>

datatype recv_event = Data string | RecvError

record sock =
  connect_fails :: bool
  connected :: bool
  closed :: bool
  send_fails :: bool
  sent :: "string list"
  incoming :: "recv_event list"

definition sock_connect :: "sock \<Rightarrow> (error + unit) \<times> sock" where
  "sock_connect s =
     (if connect_fails s \<or> connected s \<or> closed s then (Inl OSError, s)
      else (Inr (), s\<lparr>connected := True\<rparr>))"

definition sock_sendall :: "string \<Rightarrow> sock \<Rightarrow> (error + unit) \<times> sock" where
  "sock_sendall d s =
     (if \<not> connected s \<or> closed s \<or> send_fails s then (Inl OSError, s)
      else (Inr (), s\<lparr>sent := sent s @ [d]\<rparr>))"

definition sock_recv :: "sock \<Rightarrow> (error + string) \<times> sock" where
  "sock_recv s =
     (if \<not> connected s \<or> closed s then (Inl OSError, s)
      else (case incoming s of
              [] \<Rightarrow> (Inr [], s)
            | Data d # rest \<Rightarrow> (Inr d, s\<lparr>incoming := rest\<rparr>)
            | RecvError # rest \<Rightarrow> (Inl OSError, s\<lparr>incoming := rest\<rparr>)))"

definition sock_close :: "sock \<Rightarrow> sock" where
  "sock_close s = s\<lparr>closed := True\<rparr>"

section \<open>Framed transport: receiving\<close>

text \<open>The local variables of \<^verbatim>\<open>_receive\<close>.\<close>

record rstate =
  amount_received :: nat
  amount_expected :: "int option"
  bytesReceived :: string
  sizeBytes :: string
  data :: "string option"

definition rstate_init :: rstate where
  "rstate_init =
     \<lparr>amount_received = 0, amount_expected = None, bytesReceived = [], sizeBytes = [],
      data = None\<rparr>"

text \<open>
  The \<^verbatim>\<open>for index in range(0, len(headerData))\<close> loop, from the current index on:
  the bytes left of \<^verbatim>\<open>headerData\<close> and \<^verbatim>\<open>sizeBytes\<close>. It ends with the new
  \<^verbatim>\<open>sizeBytes\<close> and, when it met a newline, \<^verbatim>\<open>amount_expected\<close> and \<^verbatim>\<open>data\<close>.
\<close>

fun scan_header :: "string \<Rightarrow> string \<Rightarrow> error + (string \<times> (int \<times> string) option)" where
  "scan_header [] sb = Inr (sb, None)"
| "scan_header (item # rest) sb =
     (if item = CHR ''.'' then scan_header rest sb
      else if item = NL then
        (case py_int True sb of
           Inl e \<Rightarrow> Inl e
         | Inr n \<Rightarrow> Inr (sb, Some (n, rest)))
      else scan_header rest (sb @ [item]))"

definition accumulate :: "string \<Rightarrow> rstate \<Rightarrow> rstate" where
  "accumulate d st =
     st\<lparr>amount_received := amount_received st + length d,
        bytesReceived := bytesReceived st @ d\<rparr>"

definition loop_condition :: "rstate \<Rightarrow> bool" where
  "loop_condition st =
     (case amount_expected st of
        None \<Rightarrow> True
      | Some n \<Rightarrow> int (amount_received st) < n)"

text \<open>
  The \<^verbatim>\<open>while\<close> loop of \<^verbatim>\<open>_receive\<close>. It has no bound: the value \<open>None\<close> says
  that the loop never ends.
\<close>

partial_function (option) receive_loop :: "rstate \<Rightarrow> sock \<Rightarrow> ((error + string) \<times> sock) option" where
  "receive_loop st s =
     (if loop_condition st then
        (case sock_recv s of
           (Inl e, s') \<Rightarrow> Some (Inl e, s')
         | (Inr headerData, s') \<Rightarrow>
             (if amount_expected st = None then
                (case scan_header headerData (sizeBytes st) of
                   Inl e \<Rightarrow> Some (Inl e, s')
                 | Inr (sb, None) \<Rightarrow>
                     (case data st of
                        None \<Rightarrow> receive_loop (st\<lparr>sizeBytes := sb\<rparr>) s'
                      | Some d \<Rightarrow> receive_loop (accumulate d (st\<lparr>sizeBytes := sb\<rparr>)) s')
                 | Inr (sb, Some (n, rest)) \<Rightarrow>
                     receive_loop
                       (accumulate rest
                          (st\<lparr>sizeBytes := sb, amount_expected := Some n, data := Some rest\<rparr>)) s')
              else receive_loop (accumulate headerData (st\<lparr>data := Some headerData\<rparr>)) s'))
      else Some (Inr (bytesReceived st), s))"

section \<open>Server handle and session\<close>

text \<open>
  The process \<^verbatim>\<open>subprocess.Popen\<close> returns: \<open>stdout\<close> lists the lines that
  \<^verbatim>\<open>readline()\<close> will return; after the last one it returns the empty bytes.
\<close>

record proc =
  stdout :: "string list"

text \<open>
  What the module does to objects it then drops: \<^verbatim>\<open>kill()\<close> and \<^verbatim>\<open>wait()\<close> on the
  process, \<^verbatim>\<open>os.remove\<close> of the socket file, \<^verbatim>\<open>close()\<close> of a socket (with the
  socket as it was closed).
\<close>

datatype event = Kill | Wait | Remove string | Closed sock

text \<open>
  \<^verbatim>\<open>PrologServer\<close>. The fields that only feed the launch arguments
  (\<^verbatim>\<open>_query_timeout\<close>, \<^verbatim>\<open>pending_connections\<close>, \<^verbatim>\<open>_halt_on_connection_failure\<close>,
  \<^verbatim>\<open>_output_file\<close>) and the two stream readers are left out. The last three fields
  are the environment: what \<^verbatim>\<open>Popen\<close> will return (\<open>None\<close>: it raises
  \<^verbatim>\<open>OSError\<close>), the sockets \<^verbatim>\<open>socket.socket\<close> will hand out, and the events so far.
\<close>

record server =
  launch_server :: bool
  server_traces :: bool
  unix_domain_socket :: "string option"
  port :: "int option"
  password :: "string option"
  process :: "proc option"
  connection_failed :: bool
  popen :: "proc option"
  sockets :: "sock list"
  events :: "event list"

text \<open>\<^verbatim>\<open>PrologThread\<close>.\<close>

record thread =
  socket :: "sock option"
  communication_thread_id :: "json option"
  goal_thread_id :: "json option"

definition PrologServer_init ::
  "bool \<Rightarrow> int option \<Rightarrow> string option \<Rightarrow> string option \<Rightarrow> bool \<Rightarrow> proc option \<Rightarrow> sock list \<Rightarrow> server" where
  "PrologServer_init launch prt pwd uds traces env_popen env_sockets =
     \<lparr>launch_server = launch, server_traces = traces, unix_domain_socket = uds, port = prt,
      password = pwd, process = None, connection_failed = False,
      popen = env_popen, sockets = env_sockets, events = []\<rparr>"

definition PrologThread_init :: thread where
  "PrologThread_init = \<lparr>socket = None, communication_thread_id = None, goal_thread_id = None\<rparr>"

text \<open>
  A method is a function of the state that returns a value or raises, with the state it
  leaves behind, or never returns (\<open>None\<close>).
\<close>

type_synonym ('a, 's) action = "'s \<Rightarrow> ((error + 'a) \<times> 's) option"

definition return :: "'a \<Rightarrow> ('a, 's) action" where
  "return a = (\<lambda>s. Some (Inr a, s))"

definition raise :: "error \<Rightarrow> ('a, 's) action" where
  "raise e = (\<lambda>s. Some (Inl e, s))"

definition lift :: "error + 'a \<Rightarrow> ('a, 's) action" where
  "lift r = (\<lambda>s. Some (r, s))"

definition bind :: "('a, 's) action \<Rightarrow> ('a \<Rightarrow> ('b, 's) action) \<Rightarrow> ('b, 's) action" where
  "bind m f =
     (\<lambda>s. case m s of
             None \<Rightarrow> None
           | Some (Inl e, s') \<Rightarrow> Some (Inl e, s')
           | Some (Inr a, s') \<Rightarrow> f a s')"

text \<open>
  A test of the state (\<^verbatim>\<open>if self._socket is None\<close>), a read of the state and an
  assignment to it.
\<close>

definition branch :: "('s \<Rightarrow> bool) \<Rightarrow> ('a, 's) action \<Rightarrow> ('a, 's) action \<Rightarrow> ('a, 's) action" where
  "branch c m1 m2 = (\<lambda>s. if c s then m1 s else m2 s)"

definition get :: "('s \<Rightarrow> 'v) \<Rightarrow> ('v, 's) action" where
  "get f = (\<lambda>s. Some (Inr (f s), s))"

definition modify :: "('s \<Rightarrow> 's) \<Rightarrow> (unit, 's) action" where
  "modify f = (\<lambda>s. Some (Inr (), f s))"

text \<open>\<^verbatim>\<open>try: m except OSError: pass\<close>.\<close>

definition except_OSError :: "(unit, 's) action \<Rightarrow> (unit, 's) action" where
  "except_OSError m =
     (\<lambda>s. case m s of
             None \<Rightarrow> None
           | Some (Inl e, s') \<Rightarrow> if e = OSError then Some (Inr (), s') else Some (Inl e, s')
           | Some (Inr a, s') \<Rightarrow> Some (Inr (), s'))"

subsection \<open>Framed transport on the session's socket\<close>

definition socket_sendall :: "string \<Rightarrow> (unit, server \<times> thread) action" where
  "socket_sendall d =
     (\<lambda>(srv, th). case socket th of
        None \<Rightarrow> Some (Inl AttributeError, srv, th)
      | Some s \<Rightarrow> (case sock_sendall d s of (r, s') \<Rightarrow> Some (r, srv, th\<lparr>socket := Some s'\<rparr>)))"

text \<open>\<^verbatim>\<open>_send\<close>.\<close>

definition send :: "unicode \<Rightarrow> string \<Rightarrow> (unit, server \<times> thread) action" where
  "send U val =
     (let val = strip U val;
          val = rstrip [NL, CHR ''.''] val;
          val = val @ [CHR ''.'', NL];
          utf8Value = encode_utf8 val;
          msgHeader = encode_utf8 (show_nat (length utf8Value) @ [CHR ''.'', NL])
      in bind (socket_sendall msgHeader) (\<lambda>_. socket_sendall utf8Value))"

text \<open>\<^verbatim>\<open>_receive\<close>.\<close>

definition receive :: "(string, server \<times> thread) action" where
  "receive =
     (\<lambda>(srv, th). case socket th of
        None \<Rightarrow> Some (Inl AttributeError, srv, th)
      | Some s \<Rightarrow>
          (case receive_loop rstate_init s of
             None \<Rightarrow> None
           | Some (Inl e, s') \<Rightarrow> Some (Inl e, srv, th\<lparr>socket := Some s'\<rparr>)
           | Some (Inr b, s') \<Rightarrow> Some (decode_utf8 b, srv, th\<lparr>socket := Some s'\<rparr>)))"

subsection \<open>Classifying a reply\<close>

text \<open>
  What \<^verbatim>\<open>_return_prolog_response\<close> returns: \<^verbatim>\<open>None\<close>, a boolean, the list of
  answers (each \<^verbatim>\<open>True\<close> or a \<^verbatim>\<open>dict\<close>), or the decoded reply itself. A
  \<^verbatim>\<open>dict\<close> is the list of its items in insertion order.
\<close>

datatype answer = ATrue | ADict "(json \<times> json) list"

datatype response = RNone | RBool bool | RList "answer list" | RJson json

text \<open>\<^verbatim>\<open>d[k] = v\<close>: a list or an object is not hashable.\<close>

definition dict_set :: "(json \<times> json) list \<Rightarrow> json \<Rightarrow> json \<Rightarrow> error + (json \<times> json) list" where
  "dict_set d k v =
     (case k of
        JStr s \<Rightarrow> Inr (AList.update k v d)
      | JInt n \<Rightarrow> Inr (AList.update k v d)
      | _ \<Rightarrow> Inl TypeError)"

text \<open>
  \<^verbatim>\<open>answerDict[prolog_args(answerAssignment)[0]] = prolog_args(answerAssignment)[1]\<close>
  for every \<^verbatim>\<open>answerAssignment\<close>: Python evaluates the right-hand side first.
\<close>

fun answer_dict :: "json list \<Rightarrow> (json \<times> json) list \<Rightarrow> error + (json \<times> json) list" where
  "answer_dict [] answerDict = Inr answerDict"
| "answer_dict (answerAssignment # rest) answerDict =
     (case prolog_args answerAssignment of
        Inl e \<Rightarrow> Inl e
      | Inr a1 \<Rightarrow>
          (case py_index a1 1 of
             Inl e \<Rightarrow> Inl e
           | Inr v \<Rightarrow>
               (case prolog_args answerAssignment of
                  Inl e \<Rightarrow> Inl e
                | Inr a0 \<Rightarrow>
                    (case py_index a0 0 of
                       Inl e \<Rightarrow> Inl e
                     | Inr k \<Rightarrow>
                         (case dict_set answerDict k v of
                            Inl e \<Rightarrow> Inl e
                          | Inr d \<Rightarrow> answer_dict rest d)))))"

fun answer_list :: "json list \<Rightarrow> answer list \<Rightarrow> error + answer list" where
  "answer_list [] answerList = Inr answerList"
| "answer_list (ans # rest) answerList =
     (case py_len ans of
        Inl e \<Rightarrow> Inl e
      | Inr n \<Rightarrow>
          if n = 0 then answer_list rest (answerList @ [ATrue])
          else (case py_iter ans of
                  Inl e \<Rightarrow> Inl e
                | Inr assignments \<Rightarrow>
                    (case answer_dict assignments [] of
                       Inl e \<Rightarrow> Inl e
                     | Inr answerDict \<Rightarrow> answer_list rest (answerList @ [ADict answerDict]))))"

text \<open>\<^verbatim>\<open>jsonResult["args"][0]\<close>.\<close>

definition args0 :: "json \<Rightarrow> error + json" where
  "args0 jsonResult = (case prolog_args jsonResult of Inl e \<Rightarrow> Inl e | Inr a \<Rightarrow> py_index a 0)"

definition set_connection_failed :: "(unit, server \<times> thread) action" where
  "set_connection_failed = modify (\<lambda>(srv, th). (srv\<lparr>connection_failed := True\<rparr>, th))"

text \<open>The body of \<^verbatim>\<open>_return_prolog_response\<close> after \<^verbatim>\<open>json.loads\<close>.\<close>

definition classify_response :: "unicode \<Rightarrow> json \<Rightarrow> (response, server \<times> thread) action" where
  "classify_response U jsonResult =
     bind (lift (prolog_name U jsonResult)) (\<lambda>name.
       if name = JStr ''exception'' then
         bind (lift (args0 jsonResult)) (\<lambda>a.
           if a = JStr ''no_more_results'' then return RNone
           else if a = JStr ''connection_failed'' then
             bind set_connection_failed
               (\<lambda>_. raise (PrologError_init U PrologConnectionFailedError jsonResult))
           else if a = JStr ''time_limit_exceeded'' then
             raise (PrologError_init U PrologQueryTimeoutError jsonResult)
           else if a = JStr ''no_query'' then
             raise (PrologError_init U PrologNoQueryError jsonResult)
           else if a = JStr ''cancel_goal'' then
             raise (PrologError_init U PrologQueryCancelledError jsonResult)
           else if a = JStr ''result_not_available'' then
             raise (PrologError_init U PrologResultNotAvailableError jsonResult)
           else raise (PrologError_init U PrologError jsonResult))
       else if name = JStr ''false'' then return (RBool False)
       else if name = JStr ''true'' then
         bind (lift (args0 jsonResult)) (\<lambda>a.
           bind (lift (py_iter a)) (\<lambda>answers.
             bind (lift (answer_list answers [])) (\<lambda>answerList.
               if answerList = [ATrue] then return (RBool True)
               else return (RList answerList))))
       else return (RJson jsonResult))"

text \<open>
  \<^verbatim>\<open>_return_prolog_response\<close>. The parameter \<open>loads\<close> is \<^verbatim>\<open>json.loads\<close> of the
  Python library, from the text of a reply to the decoded value.
\<close>

definition return_prolog_response ::
  "unicode \<Rightarrow> (string \<Rightarrow> error + json) \<Rightarrow> (response, server \<times> thread) action" where
  "return_prolog_response U loads =
     bind receive (\<lambda>result.
       bind (lift (loads result)) (\<lambda>jsonResult. classify_response U jsonResult))"

subsection \<open>Session operations\<close>

text \<open>The tests and fields of the state that the operations read.\<close>

definition has_socket :: "server \<times> thread \<Rightarrow> bool" where
  "has_socket st = (socket (snd st) \<noteq> None)"

definition has_process :: "server \<Rightarrow> bool" where
  "has_process srv = (process srv \<noteq> None)"

definition truthy :: "string option \<Rightarrow> bool" where
  "truthy x = (case x of None \<Rightarrow> False | Some s \<Rightarrow> s \<noteq> [])"

text \<open>A method of the server handle called from a session.\<close>

definition on_server :: "('a, server) action \<Rightarrow> ('a, server \<times> thread) action" where
  "on_server m =
     (\<lambda>(srv, th). case m srv of None \<Rightarrow> None | Some (r, srv') \<Rightarrow> Some (r, srv', th))"

text \<open>\<^verbatim>\<open>self._socket.close(); self._socket = None\<close>.\<close>

definition close_socket :: "(unit, server \<times> thread) action" where
  "close_socket =
     (\<lambda>(srv, th). case socket th of
        None \<Rightarrow> Some (Inl AttributeError, srv, th)
      | Some s \<Rightarrow>
          Some (Inr (), srv\<lparr>events := events srv @ [Closed (sock_close s)]\<rparr>, th\<lparr>socket := None\<rparr>))"

text \<open>\<^verbatim>\<open>PrologThread.stop\<close>.\<close>

definition PrologThread_stop :: "unicode \<Rightarrow> (string \<Rightarrow> error + json) \<Rightarrow> (unit, server \<times> thread) action" where
  "PrologThread_stop U loads =
     branch has_socket
       (bind
          (branch (\<lambda>st. \<not> connection_failed (fst st))
             (except_OSError
                (bind (send U (''close.'' @ [NL])) (\<lambda>_.
                   bind (return_prolog_response U loads) (\<lambda>_. return ()))))
             (return ()))
          (\<lambda>_. close_socket))
       (return ())"

text \<open>
  \<^verbatim>\<open>PrologThread.start\<close> from the creation of the socket on. The address of
  \<^verbatim>\<open>connect\<close> is the socket file when \<^verbatim>\<open>_unix_domain_socket\<close> is a non-empty text,
  else the port on the local host; no port is a \<^verbatim>\<open>TypeError\<close>.
\<close>

definition new_socket :: "(unit, server \<times> thread) action" where
  "new_socket =
     (\<lambda>(srv, th). case sockets srv of
        [] \<Rightarrow> Some (Inl OSError, srv, th)
      | s # rest \<Rightarrow> Some (Inr (), srv\<lparr>sockets := rest\<rparr>, th\<lparr>socket := Some s\<rparr>))"

definition socket_connect :: "(unit, server \<times> thread) action" where
  "socket_connect =
     (\<lambda>(srv, th). case socket th of
        None \<Rightarrow> Some (Inl AttributeError, srv, th)
      | Some s \<Rightarrow>
          if \<not> truthy (unix_domain_socket srv) \<and> port srv = None
          then Some (Inl TypeError, srv, th)
          else (case sock_connect s of (r, s') \<Rightarrow> Some (r, srv, th\<lparr>socket := Some s'\<rparr>)))"

definition set_communication_thread_id :: "json \<Rightarrow> (unit, server \<times> thread) action" where
  "set_communication_thread_id c =
     modify (\<lambda>(srv, th). (srv, th\<lparr>communication_thread_id := Some c\<rparr>))"

definition set_goal_thread_id :: "json \<Rightarrow> (unit, server \<times> thread) action" where
  "set_goal_thread_id g =
     modify (\<lambda>(srv, th). (srv, th\<lparr>goal_thread_id := Some g\<rparr>))"

definition format_password :: "string option \<Rightarrow> string" where
  "format_password p = (case p of None \<Rightarrow> ''None'' | Some s \<Rightarrow> s)"

definition thread_connect :: "unicode \<Rightarrow> (string \<Rightarrow> error + json) \<Rightarrow> (unit, server \<times> thread) action" where
  "thread_connect U loads =
     bind new_socket (\<lambda>_.
     bind socket_connect (\<lambda>_.
     bind (get (\<lambda>st. password (fst st))) (\<lambda>pwd.
     bind (send U (format_password pwd)) (\<lambda>_.
     bind receive (\<lambda>result.
     bind (lift (loads result)) (\<lambda>jsonResult.
     bind (lift (prolog_name U jsonResult)) (\<lambda>name.
       if name \<noteq> JStr ''true'' then
         bind (lift (json_to_prolog U jsonResult)) (\<lambda>msg.
           raise (PrologError_init U PrologLaunchError
                    (JStr (''Failed to accept password: '' @ msg))))
       else
         bind (lift (args0 jsonResult)) (\<lambda>a.
         bind (lift (py_index a 0)) (\<lambda>b.
         bind (lift (py_index b 0)) (\<lambda>threadTerm.
         bind (lift (args0 threadTerm)) (\<lambda>c.
         bind (set_communication_thread_id c) (\<lambda>_.
         bind (lift (prolog_args threadTerm)) (\<lambda>targs.
         bind (lift (py_index targs 1)) (\<lambda>g.
           set_goal_thread_id g))))))))))))))"

text \<open>
  \<^verbatim>\<open>PrologThread.start\<close>, with the call of \<^verbatim>\<open>PrologServer.start\<close> as a parameter:
  \<^verbatim>\<open>PrologServer.start\<close> opens a session of its own when \<^verbatim>\<open>_server_traces\<close> is set,
  and that session finds the process launched.
\<close>

definition PrologThread_start_with ::
  "unicode \<Rightarrow> (unit, server) action \<Rightarrow> (string \<Rightarrow> error + json) \<Rightarrow> (unit, server \<times> thread) action" where
  "PrologThread_start_with U server_start loads =
     branch has_socket
       (return ())
       (bind
          (branch (\<lambda>st. \<not> has_process (fst st)) (on_server server_start) (return ()))
          (\<lambda>_. thread_connect U loads))"

text \<open>\<^verbatim>\<open>str(query_timeout_seconds)\<close>; the time is a whole number of seconds here.\<close>

definition timeout_string :: "string \<Rightarrow> int option \<Rightarrow> string" where
  "timeout_string dflt t = (case t of None \<Rightarrow> dflt | Some n \<Rightarrow> show_int n)"

text \<open>\<^verbatim>\<open>PrologThread.query\<close>, with \<^verbatim>\<open>self.start\<close> as a parameter.\<close>

definition query_with ::
  "unicode \<Rightarrow> (unit, server \<times> thread) action \<Rightarrow> (string \<Rightarrow> error + json) \<Rightarrow> string \<Rightarrow> int option \<Rightarrow>
   (response, server \<times> thread) action" where
  "query_with U start loads val query_timeout_seconds =
     bind (branch has_socket (return ()) start) (\<lambda>_.
       let val = strip U val;
           val = rstrip [NL, CHR ''.''] val;
           timeoutString = timeout_string ''_'' query_timeout_seconds
       in bind (send U (''run(('' @ val @ ''), '' @ timeoutString @ '').'' @ [NL])) (\<lambda>_.
            return_prolog_response U loads))"

text \<open>
  \<^verbatim>\<open>with self.create_thread() as prologThread: body\<close>: \<^verbatim>\<open>__enter__\<close> starts the
  session, \<^verbatim>\<open>__exit__\<close> stops it whether the body raised or not, and an exception of
  \<^verbatim>\<open>stop\<close> replaces that of the body. The session object is dropped afterwards.
\<close>

definition with_thread ::
  "(unit, server \<times> thread) action \<Rightarrow> (unit, server \<times> thread) action \<Rightarrow>
   ('a, server \<times> thread) action \<Rightarrow> ('a, server) action" where
  "with_thread start stop body =
     (\<lambda>srv. case start (srv, PrologThread_init) of
        None \<Rightarrow> None
      | Some (Inl e, srv1, th1) \<Rightarrow> Some (Inl e, srv1)
      | Some (Inr u, srv1, th1) \<Rightarrow>
          (case body (srv1, th1) of
             None \<Rightarrow> None
           | Some (r, srv2, th2) \<Rightarrow>
               (case stop (srv2, th2) of
                  None \<Rightarrow> None
                | Some (Inl e, srv3, th3) \<Rightarrow> Some (Inl e, srv3)
                | Some (Inr u, srv3, th3) \<Rightarrow> Some (r, srv3))))"

text \<open>\<^verbatim>\<open>self._process.stdout.readline().decode()\<close>.\<close>

definition readline :: "(string, server) action" where
  "readline =
     (\<lambda>srv. case process srv of
        None \<Rightarrow> Some (Inl AttributeError, srv)
      | Some p \<Rightarrow>
          (case stdout p of
             [] \<Rightarrow> Some (decode_utf8 [], srv)
           | l # ls \<Rightarrow> Some (decode_utf8 l, srv\<lparr>process := Some (p\<lparr>stdout := ls\<rparr>)\<rparr>)))"

text \<open>\<^verbatim>\<open>self._process = subprocess.Popen(...)\<close>.\<close>

definition launch :: "(unit, server) action" where
  "launch =
     (\<lambda>srv. case popen srv of
        None \<Rightarrow> Some (Inl OSError, srv)
      | Some p \<Rightarrow> Some (Inr (), srv\<lparr>process := Some p\<rparr>))"

definition never :: "('a, 's) action" where
  "never = (\<lambda>s. None)"

text \<open>
  \<^verbatim>\<open>PrologServer.start\<close>. The session it opens under \<^verbatim>\<open>_server_traces\<close> starts
  after \<^verbatim>\<open>_process\<close> is set, so the parameter of its \<^verbatim>\<open>start\<close> is not run.
\<close>

definition PrologServer_start :: "unicode \<Rightarrow> (string \<Rightarrow> error + json) \<Rightarrow> (unit, server) action" where
  "PrologServer_start U loads =
     branch launch_server
       (bind launch (\<lambda>_.
        bind
          (branch (\<lambda>srv. unix_domain_socket srv = None)
             (bind readline (\<lambda>portString.
                if portString = [] then
                  raise (PrologError_init U PrologLaunchError (JStr ''no port found in stdout''))
                else
                  bind (lift (py_int_text U (rstrip [NL] portString))) (\<lambda>n.
                    modify (\<lambda>srv. srv\<lparr>port := Some n\<rparr>))))
             (return ()))
          (\<lambda>_.
        bind readline (\<lambda>passwordString.
          if passwordString = [] then
            raise (PrologError_init U PrologLaunchError (JStr ''no password found in stdout''))
          else
            bind (modify (\<lambda>srv. srv\<lparr>password := Some (rstrip [NL] passwordString)\<rparr>)) (\<lambda>_.
              branch server_traces
                (bind
                   (with_thread (PrologThread_start_with U never loads)
                      (PrologThread_stop U loads)
                      (query_with U (PrologThread_start_with U never loads) loads
                         ''debug(prologServer(_))'' None))
                   (\<lambda>_. return ()))
                (return ()))))))
       (return ())"

text \<open>The public operations of \<^verbatim>\<open>PrologThread\<close>.\<close>

definition PrologThread_start :: "unicode \<Rightarrow> (string \<Rightarrow> error + json) \<Rightarrow> (unit, server \<times> thread) action" where
  "PrologThread_start U loads = PrologThread_start_with U (PrologServer_start U loads) loads"

definition query ::
  "unicode \<Rightarrow> (string \<Rightarrow> error + json) \<Rightarrow> string \<Rightarrow> int option \<Rightarrow> (response, server \<times> thread) action" where
  "query U loads val query_timeout_seconds =
     query_with U (PrologThread_start U loads) loads val query_timeout_seconds"

definition query_async ::
  "unicode \<Rightarrow> (string \<Rightarrow> error + json) \<Rightarrow> string \<Rightarrow> bool \<Rightarrow> int option \<Rightarrow> (unit, server \<times> thread) action" where
  "query_async U loads val find_all query_timeout_seconds =
     bind (branch has_socket (return ()) (PrologThread_start U loads)) (\<lambda>_.
       let val = strip U val;
           val = rstrip [NL, CHR ''.''] val;
           timeoutString = timeout_string ''_'' query_timeout_seconds;
           findallResultsString = (if find_all then ''true'' else ''false'')
       in bind (send U (''run_async(('' @ val @ ''), '' @ timeoutString @ '', '' @
                      findallResultsString @ '').'' @ [NL])) (\<lambda>_.
            bind (return_prolog_response U loads) (\<lambda>_. return ())))"

definition cancel_query_async :: "unicode \<Rightarrow> (string \<Rightarrow> error + json) \<Rightarrow> (unit, server \<times> thread) action" where
  "cancel_query_async U loads =
     bind (send U (''cancel_async.'' @ [NL])) (\<lambda>_.
       bind (return_prolog_response U loads) (\<lambda>_. return ()))"

definition query_async_result ::
  "unicode \<Rightarrow> (string \<Rightarrow> error + json) \<Rightarrow> int option \<Rightarrow> (response, server \<times> thread) action" where
  "query_async_result U loads wait_timeout_seconds =
     (let timeoutString = timeout_string ''-1'' wait_timeout_seconds
      in bind (send U (''async_result('' @ timeoutString @ '').'' @ [NL])) (\<lambda>_.
           return_prolog_response U loads))"

definition halt_server :: "unicode \<Rightarrow> (string \<Rightarrow> error + json) \<Rightarrow> (unit, server \<times> thread) action" where
  "halt_server U loads =
     bind (send U (''quit.'' @ [NL])) (\<lambda>_.
       bind (return_prolog_response U loads) (\<lambda>result. set_connection_failed))"

text \<open>\<^verbatim>\<open>PrologServer.stop\<close>.\<close>

definition log_event :: "event \<Rightarrow> (unit, server) action" where
  "log_event ev = modify (\<lambda>srv. srv\<lparr>events := events srv @ [ev]\<rparr>)"

definition PrologServer_stop :: "unicode \<Rightarrow> (string \<Rightarrow> error + json) \<Rightarrow> bool \<Rightarrow> (unit, server) action" where
  "PrologServer_stop U loads kill =
     branch has_process
       (bind
          (branch (\<lambda>srv. kill \<or> connection_failed srv)
             (log_event Kill)
             (with_thread (PrologThread_start U loads) (PrologThread_stop U loads) (halt_server U loads)))
          (\<lambda>_.
        bind (log_event Wait) (\<lambda>result.
        bind
          (branch (\<lambda>srv. truthy (unix_domain_socket srv))
             (bind (get unix_domain_socket) (\<lambda>path. log_event (Remove (the path))))
             (return ()))
          (\<lambda>_. modify (\<lambda>srv. srv\<lparr>process := None\<rparr>)))))
       (return ())"

text \<open>\<^verbatim>\<open>PrologServer.process_id\<close> is not \<^verbatim>\<open>None\<close>.\<close>

definition process_id :: "server \<Rightarrow> bool" where
  "process_id srv = has_process srv"

declare receive_loop.simps [code]

section \<open>Replies of the wire protocol\<close>

text \<open>
  The well-formed replies, decoded: \<^verbatim>\<open>false()\<close>, \<^verbatim>\<open>exception(Inner)\<close>, and
  \<^verbatim>\<open>true([[...], ...])\<close> with one list of \<^verbatim>\<open>=(VarName, Term)\<close> bindings per answer.
\<close>

definition false_reply :: json where
  "false_reply = JFunctor ''false'' []"

definition exception_reply :: "json \<Rightarrow> json" where
  "exception_reply inner = JFunctor ''exception'' [inner]"

definition binding_term :: "string \<times> json \<Rightarrow> json" where
  "binding_term b = JFunctor ''='' [JStr (fst b), snd b]"

definition true_reply :: "(string \<times> json) list list \<Rightarrow> json" where
  "true_reply answers = JFunctor ''true'' [JList (map (\<lambda>bs. JList (map binding_term bs)) answers)]"

text \<open>The answer that a list of bindings stands for.\<close>

definition answer_of :: "(string \<times> json) list \<Rightarrow> answer" where
  "answer_of bs = (if bs = [] then ATrue else ADict (map (\<lambda>b. (JStr (fst b), snd b)) bs))"

section \<open>Example states\<close>

text \<open>
  A connected socket on which nothing was sent and whose peer will deliver \<open>evs\<close>; a
  server handle as \<^verbatim>\<open>PrologServer()\<close> builds it, before \<^verbatim>\<open>start\<close>; a session that
  owns socket \<open>s\<close>.
\<close>

definition open_socket :: "recv_event list \<Rightarrow> sock" where
  "open_socket evs =
     \<lparr>connect_fails = False, connected = True, closed = False, send_fails = False,
      sent = [], incoming = evs\<rparr>"

definition new_server :: server where
  "new_server = PrologServer_init True None None None False None []"

definition session_on :: "sock \<Rightarrow> thread" where
  "session_on s = PrologThread_init\<lparr>socket := Some s\<rparr>"


text \<open>
  A \<^verbatim>\<open>json.loads\<close> that decodes the text \<open>body\<close> to the value \<open>j\<close> and takes no
  other text for JSON.
\<close>

definition loads_only :: "string \<Rightarrow> json \<Rightarrow> string \<Rightarrow> error + json" where
  "loads_only body j = (\<lambda>t. if t = body then Inr j else Inl JSONDecodeError)"

text \<open>
  A part of the Unicode database for the examples: of the characters beyond ASCII,
  \<^verbatim>\<open>U+00C9\<close> (E with acute, bytes C3 89) is an upper case letter, \<^verbatim>\<open>U+00E9\<close> (e with
  acute, bytes C3 A9) is a letter, and \<^verbatim>\<open>U+00A0\<close> (no-break space, bytes C2 A0) is white
  space. The examples use no other character beyond ASCII.
\<close>

definition sample_unicode :: unicode where
  "sample_unicode =
     \<lparr>uc_upper = (\<lambda>c. c = [CHR 0xC3, CHR 0x89]),
      uc_alpha = (\<lambda>c. c = [CHR 0xC3, CHR 0x89] \<or> c = [CHR 0xC3, CHR 0xA9]),
      uc_numeric = (\<lambda>c. False),
      uc_space = (\<lambda>c. c = [CHR 0xC2, CHR 0xA0]),
      uc_decimal = (\<lambda>c. None)\<rparr>"
section \<open>Properties of operations\<close>

text \<open>
  The transport-level errors: the socket raised (\<^verbatim>\<open>OSError\<close>), the length header did
  not parse (\<^verbatim>\<open>ValueError\<close>), or the body was not UTF-8 or not JSON.
\<close>

definition transport_error :: "error \<Rightarrow> bool" where
  "transport_error e = (e = OSError \<or> e = ValueError \<or> e = UnicodeDecodeError \<or> e = JSONDecodeError)"

text \<open>The flag \<^verbatim>\<open>connection_failed\<close> of the server handle that a session belongs to.\<close>

definition flag :: "server \<times> thread \<Rightarrow> bool" where
  "flag st = connection_failed (fst st)"

text \<open>
  \<open>keeps_flag fl m\<close>: once the flag \<open>fl\<close> is set, the operation \<open>m\<close> leaves it set,
  whether it returns or raises. \<open>calm fl m\<close>: \<open>m\<close> changes the flag only when it raises
  an error that is not a transport error.
\<close>

definition keeps_flag :: "('s \<Rightarrow> bool) \<Rightarrow> ('a, 's) action \<Rightarrow> bool" where
  "keeps_flag fl m = (\<forall>s r s'. fl s \<longrightarrow> m s = Some (r, s') \<longrightarrow> fl s')"

definition calm :: "('s \<Rightarrow> bool) \<Rightarrow> ('a, 's) action \<Rightarrow> bool" where
  "calm fl m =
     (\<forall>s r s'. m s = Some (r, s') \<longrightarrow> fl s' = fl s \<or> (\<exists>e. r = Inl e \<and> \<not> transport_error e))"


text \<open>
  \<open>raises_unwrapped U loads msg m\<close>: on a started session the operation \<open>m\<close> sends
  \<open>msg\<close> and reads the reply, and when the sending raises, the receiving raises, or
  \<^verbatim>\<open>json.loads\<close> raises on the text received, that error is what \<open>m\<close> raises, in the
  state the failing step left and with the flag as it was before the call.
\<close>

definition raises_unwrapped ::
  "unicode \<Rightarrow> (string \<Rightarrow> error + json) \<Rightarrow> string \<Rightarrow> ('a, server \<times> thread) action \<Rightarrow> bool" where
  "raises_unwrapped U loads msg m =
     (\<forall>st st1 st2 text e.
        has_socket st \<longrightarrow>
        (send U msg st = Some (Inl e, st1) \<longrightarrow>
           m st = Some (Inl e, st1) \<and> flag st1 = flag st) \<and>
        (send U msg st = Some (Inr (), st1) \<and> receive st1 = Some (Inl e, st2) \<longrightarrow>
           m st = Some (Inl e, st2) \<and> flag st2 = flag st) \<and>
        (send U msg st = Some (Inr (), st1) \<and> receive st1 = Some (Inr text, st2) \<and>
         loads text = Inl e \<longrightarrow>
           m st = Some (Inl e, st2) \<and> flag st2 = flag st))"

section \<open>Facts about the term model\<close>

lemma chars_of_Nil_iff: "chars_of s = [] \<longleftrightarrow> s = []"
  by (cases s) simp_all

lemma concat_chars_of: "concat (chars_of s) = s"
  by (induction s rule: chars_of.induct) simp_all

lemma chars_of_filter:
  "chars_of (concat (filter P (chars_of s))) = filter P (chars_of s)"
proof (induction s rule: chars_of.induct)
  case 1
  show ?case by simp
next
  case (2 c s)
  let ?k = "utf8_width c - 1"
  let ?X = "concat (filter P (chars_of (drop ?k s)))"
  show ?case
  proof (cases "P (c # take ?k s)")
    case False
    with 2 show ?thesis by simp
  next
    case True
    show ?thesis
    proof (cases "?k \<le> length s")
      case le: True
      then have "take ?k (take ?k s @ ?X) = take ?k s" and "drop ?k (take ?k s @ ?X) = ?X"
        by simp_all
      with True 2 show ?thesis by simp
    next
      case gt: False
      then have "drop ?k s = []" by simp
      with True gt show ?thesis by simp
    qed
  qed
qed

lemma ascii_code_underscore: "ascii_code ''_'' = Some 95"
  by simp

lemma isalnum_not_underscore: "isalnum U c \<Longrightarrow> c \<noteq> ''_''"
  by (auto simp: isalnum_def)

lemma str_isalnum_translate:
  assumes "chars_of s = c # cs" and "isalnum U c"
  shows "str_isalnum U (translate_delete ''_'' s) =
         list_all (\<lambda>x. isalnum U x \<or> x = ''_'') (chars_of s)"
proof -
  have nu: "c \<noteq> ''_''" using assms(2) by (rule isalnum_not_underscore)
  have f: "chars_of (translate_delete ''_'' s) = filter (\<lambda>x. x \<noteq> ''_'') (chars_of s)"
    unfolding translate_delete_def by (rule chars_of_filter)
  have aux: "list_all (isalnum U) (filter (\<lambda>x. x \<noteq> ''_'') xs) =
        list_all (\<lambda>x. isalnum U x \<or> x = ''_'') xs" for xs
    by (induction xs) auto
  show ?thesis
    unfolding str_isalnum_def f assms(1)
    using nu assms(2) aux [of cs] by simp
qed

lemma is_prolog_variable_chars:
  "chars_of s = c # cs \<Longrightarrow> is_prolog_variable U (JStr s) = Inr (isupper U c \<or> c = ''_'')"
  by (simp add: is_prolog_variable_def)

lemma is_prolog_atom_chars:
  "chars_of s = c # cs \<Longrightarrow> is_prolog_atom U (JStr s) = Inr (\<not> (isupper U c \<or> c = ''_''))"
  by (simp add: is_prolog_atom_def is_prolog_variable_chars)

lemma quote_prolog_identifier_chars:
  "chars_of s = c # cs \<Longrightarrow>
   quote_prolog_identifier U (JStr s) =
     (if isupper U c \<or> c = ''_'' then Inr (JStr s)
      else if \<not> isalpha U c \<or> \<not> str_isalnum U (translate_delete ''_'' s)
           then Inr (JStr (quoted s)) else Inr (JStr s))"
  by (simp add: quote_prolog_identifier_def is_prolog_atom_chars)

lemma first_char: "s \<noteq> [] \<Longrightarrow> chars_of s = hd (chars_of s) # tl (chars_of s)"
  by (simp add: chars_of_Nil_iff)

lemma isalpha_isalnum: "isalpha U c \<Longrightarrow> isalnum U c"
  by (auto simp: isalpha_def isalnum_def split: option.splits)

text \<open>
  C10. On the empty string the classification and quoting functions raise
  \<^verbatim>\<open>IndexError\<close> (from \<^verbatim>\<open>json_term[0]\<close>) instead of returning;
  on every non-empty string \<^verbatim>\<open>is_prolog_variable\<close> returns whether the first
  character is upper case or an underscore.
\<close>

theorem empty_string_raises_IndexError:
  "is_prolog_variable U (JStr []) = Inl IndexError \<and>
   is_prolog_atom U (JStr []) = Inl IndexError \<and>
   quote_prolog_identifier U (JStr []) = Inl IndexError \<and>
   json_to_prolog U (JStr []) = Inl IndexError \<and>
   (\<forall>s. s \<noteq> [] \<longrightarrow>
      is_prolog_variable U (JStr s) =
        Inr (isupper U (hd (chars_of s)) \<or> hd (chars_of s) = ''_''))"
proof -
  have "is_prolog_variable U (JStr s) = Inr (isupper U (hd (chars_of s)) \<or> hd (chars_of s) = ''_'')"
    if "s \<noteq> []" for s
    using first_char [OF that] by (rule is_prolog_variable_chars)
  then show ?thesis
    by (simp add: is_prolog_variable_def is_prolog_atom_def quote_prolog_identifier_def)
qed

theorem empty_string_raises_IndexError_witness:
  "json_to_prolog sample_unicode (JStr []) = Inl IndexError \<and>
   is_prolog_variable sample_unicode (JStr ''Xs'') = Inr True \<and>
   is_prolog_variable sample_unicode (JStr ''_'') = Inr True \<and>
   is_prolog_variable sample_unicode (JStr ''xs'') = Inr False \<and>
   is_prolog_variable sample_unicode (JStr ([CHR 0xC3, CHR 0x89] @ ''cole'')) = Inr True \<and>
   is_prolog_variable sample_unicode (JStr ([CHR 0xC3, CHR 0xA9] @ ''cole'')) = Inr False"
proof -
  note w = empty_string_raises_IndexError [of sample_unicode]
  have c: "hd (chars_of ''Xs'') = ''X''" "hd (chars_of ''_'') = ''_''" "hd (chars_of ''xs'') = ''x''"
    "hd (chars_of ([CHR 0xC3, CHR 0x89] @ ''cole'')) = [CHR 0xC3, CHR 0x89]"
    "hd (chars_of ([CHR 0xC3, CHR 0xA9] @ ''cole'')) = [CHR 0xC3, CHR 0xA9]"
    by code_simp+
  have u: "isupper sample_unicode ''X''" "\<not> isupper sample_unicode ''x''"
    "isupper sample_unicode [CHR 0xC3, CHR 0x89]" "\<not> isupper sample_unicode [CHR 0xC3, CHR 0xA9]"
    by code_simp+
  from w c u show ?thesis by simp
qed

text \<open>
  C6, amended. A non-empty text is wrapped in single quotes exactly when it is an atom
  (its first character is neither upper case nor an underscore) and it does not start
  with a letter or contains a character other than letters, digits and underscore;
  otherwise it is returned unchanged.
\<close>

theorem quote_prolog_identifier_nonempty:
  assumes "s \<noteq> []"
  shows "quote_prolog_identifier U (JStr s) =
     Inr (JStr (if \<not> (isupper U (hd (chars_of s)) \<or> hd (chars_of s) = ''_'') \<and>
                   (\<not> isalpha U (hd (chars_of s)) \<or>
                    \<not> list_all (\<lambda>x. isalnum U x \<or> x = ''_'') (chars_of s))
                then quoted s else s))"
proof -
  note cs = first_char [OF assms]
  show ?thesis
  proof (cases "isalpha U (hd (chars_of s))")
    case True
    then have "isalnum U (hd (chars_of s))" by (rule isalpha_isalnum)
    from str_isalnum_translate [OF cs this] True show ?thesis
      unfolding quote_prolog_identifier_chars [OF cs] by simp
  next
    case False
    then show ?thesis
      unfolding quote_prolog_identifier_chars [OF cs] by simp
  qed
qed

theorem quote_prolog_identifier_nonempty_witness:
  "quote_prolog_identifier sample_unicode (JStr ''b A'') = Inr (JStr (quoted ''b A'')) \<and>
   quote_prolog_identifier sample_unicode (JStr ''1b'') = Inr (JStr (quoted ''1b'')) \<and>
   quote_prolog_identifier sample_unicode (JStr ''b'') = Inr (JStr ''b'') \<and>
   quote_prolog_identifier sample_unicode (JStr ''_'') = Inr (JStr ''_'') \<and>
   quote_prolog_identifier sample_unicode (JStr ([CHR 0xC3, CHR 0xA9] @ ''cole'')) =
     Inr (JStr ([CHR 0xC3, CHR 0xA9] @ ''cole''))"
proof -
  have a: "(if \<not> (isupper sample_unicode (hd (chars_of s)) \<or> hd (chars_of s) = ''_'') \<and>
              (\<not> isalpha sample_unicode (hd (chars_of s)) \<or>
               \<not> list_all (\<lambda>x. isalnum sample_unicode x \<or> x = ''_'') (chars_of s))
           then quoted s else s) = t \<Longrightarrow> s \<noteq> [] \<Longrightarrow>
           quote_prolog_identifier sample_unicode (JStr s) = Inr (JStr t)" for s t
    using quote_prolog_identifier_nonempty [of s sample_unicode] by simp
  have "quote_prolog_identifier sample_unicode (JStr ''b A'') = Inr (JStr (quoted ''b A''))"
    by (rule a) (code_simp, simp)
  moreover have "quote_prolog_identifier sample_unicode (JStr ''1b'') = Inr (JStr (quoted ''1b''))"
    by (rule a) (code_simp, simp)
  moreover have "quote_prolog_identifier sample_unicode (JStr ''b'') = Inr (JStr ''b'')"
    by (rule a) (code_simp, simp)
  moreover have "quote_prolog_identifier sample_unicode (JStr ''_'') = Inr (JStr ''_'')"
    by (rule a) (code_simp, simp)
  moreover have "quote_prolog_identifier sample_unicode (JStr ([CHR 0xC3, CHR 0xA9] @ ''cole'')) =
     Inr (JStr ([CHR 0xC3, CHR 0xA9] @ ''cole''))"
    by (rule a) (code_simp, simp)
  ultimately show ?thesis by simp
qed

text \<open>
  The rule of the specification fails on a text that starts with an upper case letter:
  \<^verbatim>\<open>A b\<close> contains a blank, and is returned without quotes.
\<close>

theorem quote_prolog_identifier_variable_counterexample:
  "\<not> (quote_prolog_identifier sample_unicode (JStr ''A b'') = Inr (JStr (quoted ''A b'')) \<longleftrightarrow>
      spec_requiresQuoting sample_unicode ''A b'')"
  by code_simp

section \<open>Facts about the classification of replies\<close>

lemma prolog_name_JFunctor: "prolog_name U (JFunctor f xs) = Inr (JStr f)"
  by (simp add: prolog_name_def is_prolog_atom_def is_prolog_variable_def get_functor_def)

lemma prolog_args_JFunctor: "prolog_args (JFunctor f xs) = Inr (JList xs)"
  by (simp add: prolog_args_def)

lemma args0_JFunctor: "args0 (JFunctor f (x # xs)) = Inr x"
  by (simp add: args0_def prolog_args_def py_index_def)

lemma bind_lift_Inr: "bind (lift (Inr a)) f = f a"
  by (simp add: bind_def lift_def)

lemma bind_lift_Inl: "bind (lift (Inl e)) f = raise e"
  by (simp add: bind_def lift_def raise_def)

lemma bind_return: "bind (return a) f = f a"
  by (simp add: bind_def return_def)

lemma bind_raise: "bind (raise e) f = raise e"
  by (simp add: bind_def raise_def)

lemma PrologError_init_exception:
  "PrologError_init U cls (JFunctor ''exception'' [inner]) =
     (case json_to_prolog U inner of Inl e \<Rightarrow> e | Inr m \<Rightarrow> Raised cls inner)"
  by (simp add: PrologError_init_def prolog_name_JFunctor prolog_args_JFunctor py_len_def
      py_index_def)

lemma update_fresh: "k \<notin> fst ` set d \<Longrightarrow> AList.update k v d = d @ [(k, v)]"
  by (induction d) auto

lemma answer_dict_bindings:
  "distinct (map fst bs) \<Longrightarrow> JStr ` fst ` set bs \<inter> fst ` set d = {} \<Longrightarrow>
   answer_dict (map binding_term bs) d = Inr (d @ map (\<lambda>b. (JStr (fst b), snd b)) bs)"
proof (induction bs arbitrary: d)
  case Nil
  then show ?case by simp
next
  case (Cons b bs)
  have fresh: "JStr (fst b) \<notin> fst ` set d"
    using Cons.prems(2) by auto
  have step: "JStr ` fst ` set bs \<inter> fst ` set (d @ [(JStr (fst b), snd b)]) = {}"
    using Cons.prems by auto
  have "distinct (map fst bs)" using Cons.prems(1) by simp
  from Cons.IH [OF this step] fresh show ?case
    by (simp add: binding_term_def prolog_args_def py_index_def dict_set_def update_fresh)
qed

lemma answer_list_answers:
  "list_all (\<lambda>bs. distinct (map fst bs)) answers \<Longrightarrow>
   answer_list (map (\<lambda>bs. JList (map binding_term bs)) answers) acc =
     Inr (acc @ map answer_of answers)"
proof (induction answers arbitrary: acc)
  case Nil
  then show ?case by simp
next
  case (Cons bs answers)
  then have d: "distinct (map fst bs)" and rest: "list_all (\<lambda>bs. distinct (map fst bs)) answers"
    by simp_all
  from answer_dict_bindings [OF d, of "[]"] Cons.IH [OF rest] show ?case
    by (simp add: py_len_def py_iter_def answer_of_def)
qed

lemma answers_single_true: "(map answer_of answers = [ATrue]) = (answers = [[]])"
  by (cases answers) (auto simp: answer_of_def)

lemma classify_exception_unfold:
  "classify_response U (exception_reply inner) =
     (if inner = JStr ''no_more_results'' then return RNone
      else if inner = JStr ''connection_failed'' then
        bind set_connection_failed
          (\<lambda>_. raise (PrologError_init U PrologConnectionFailedError (exception_reply inner)))
      else if inner = JStr ''time_limit_exceeded'' then
        raise (PrologError_init U PrologQueryTimeoutError (exception_reply inner))
      else if inner = JStr ''no_query'' then
        raise (PrologError_init U PrologNoQueryError (exception_reply inner))
      else if inner = JStr ''cancel_goal'' then
        raise (PrologError_init U PrologQueryCancelledError (exception_reply inner))
      else if inner = JStr ''result_not_available'' then
        raise (PrologError_init U PrologResultNotAvailableError (exception_reply inner))
      else raise (PrologError_init U PrologError (exception_reply inner)))"
  by (simp add: classify_response_def exception_reply_def prolog_name_JFunctor args0_JFunctor
      bind_lift_Inr)

lemma total_bind:
  assumes "\<And>s. m s \<noteq> None" and "\<And>a s. f a s \<noteq> None"
  shows "bind m f s \<noteq> None"
proof (cases "m s")
  case None
  with assms(1) [of s] show ?thesis by simp
next
  case (Some p)
  obtain r s' where p: "p = (r, s')" by (cases p)
  show ?thesis
  proof (cases r)
    case (Inl e)
    with Some p show ?thesis by (simp add: bind_def)
  next
    case (Inr a)
    with Some p assms(2) [of a s'] show ?thesis by (simp add: bind_def)
  qed
qed

lemma total_if: "m1 s \<noteq> None \<Longrightarrow> m2 s \<noteq> None \<Longrightarrow> (if c then m1 else m2) s \<noteq> None"
  by simp

lemma total_lift: "lift r s \<noteq> None"
  by (simp add: lift_def)

lemma total_return: "return a s \<noteq> None"
  by (simp add: return_def)

lemma total_raise: "raise e s \<noteq> None"
  by (simp add: raise_def)

lemma total_set_connection_failed: "set_connection_failed s \<noteq> None"
  by (simp add: set_connection_failed_def modify_def split: prod.splits)

lemma classify_total: "classify_response U j s \<noteq> None"
  unfolding classify_response_def
  by (intro total_bind total_if total_lift total_return total_raise total_set_connection_failed)

lemma ascii_atom:
  "chars_of s = c # cs \<Longrightarrow> \<not> isupper U c \<Longrightarrow> c \<noteq> ''_'' \<Longrightarrow> isalpha U c \<Longrightarrow>
   list_all (\<lambda>x. isalnum U x \<or> x = ''_'') (chars_of s) \<Longrightarrow>
   json_to_prolog U (JStr s) = Inr s"
  by (simp add: quote_prolog_identifier_chars str_isalnum_translate isalpha_isalnum
      del: chars_of.simps)

lemma render_protocol_atoms:
  "json_to_prolog U (JStr ''connection_failed'') = Inr ''connection_failed''"
  "json_to_prolog U (JStr ''time_limit_exceeded'') = Inr ''time_limit_exceeded''"
  "json_to_prolog U (JStr ''no_query'') = Inr ''no_query''"
  "json_to_prolog U (JStr ''cancel_goal'') = Inr ''cancel_goal''"
  "json_to_prolog U (JStr ''result_not_available'') = Inr ''result_not_available''"
  by code_simp+

lemma init_exception_reply:
  "PrologError_init U cls (exception_reply inner) =
     (case json_to_prolog U inner of Inl e \<Rightarrow> e | Inr m \<Rightarrow> Raised cls inner)"
  by (simp add: exception_reply_def PrologError_init_exception)

lemma prolog_name_JStr: "s \<noteq> [] \<Longrightarrow> prolog_name U (JStr s) = Inr (JStr s)"
  by (cases "isupper U (hd (chars_of s)) \<or> hd (chars_of s) = ''_''")
    (simp_all add: prolog_name_def is_prolog_atom_chars [OF first_char]
      is_prolog_variable_chars [OF first_char])

lemma prolog_name_JStr_Cons: "prolog_name U (JStr (c # cs)) = Inr (JStr (c # cs))"
  by (rule prolog_name_JStr) simp

text \<open>
  The reply \<^verbatim>\<open>false()\<close> is classified as \<^verbatim>\<open>False\<close>. The reply
  \<^verbatim>\<open>true(Answers)\<close>, each answer binding its variables once, is classified as
  \<^verbatim>\<open>True\<close> when \<^verbatim>\<open>Answers\<close> is the one empty list of bindings, and otherwise as
  the list with one element per answer: \<^verbatim>\<open>True\<close> for an empty list of bindings, the
  \<^verbatim>\<open>dict\<close> from each variable name to its term for a non-empty one. The state is
  unchanged.
\<close>

lemma classify_true_false:
  assumes "list_all (\<lambda>bs. distinct (map fst bs)) answers"
  shows "classify_response U false_reply (srv, th) = Some (Inr (RBool False), srv, th) \<and>
         classify_response U (true_reply answers) (srv, th) =
           Some (Inr (if answers = [[]] then RBool True else RList (map answer_of answers)), srv, th)"
proof -
  have f: "classify_response U false_reply (srv, th) = Some (Inr (RBool False), srv, th)"
    by (simp add: classify_response_def false_reply_def prolog_name_JFunctor bind_lift_Inr return_def)
  have t: "classify_response U (true_reply answers) (srv, th) =
           Some (Inr (if answers = [[]] then RBool True else RList (map answer_of answers)), srv, th)"
    using answer_list_answers [OF assms, of "[]"]
    by (simp add: classify_response_def true_reply_def prolog_name_JFunctor args0_JFunctor
        bind_lift_Inr py_iter_def answers_single_true return_def)
  from f t show ?thesis by simp
qed

text \<open>
  C1 (the code does otherwise). Not every well-formed reply gives a value or an error
  of the module. The atom \<^verbatim>\<open>''\<close> is an atom of Prolog, and for the reply
  \<^verbatim>\<open>exception('')\<close> the constructor of \<^verbatim>\<open>PrologError\<close> renders the inner term,
  \<^verbatim>\<open>is_prolog_variable\<close> indexes the empty string, and the caller gets
  \<^verbatim>\<open>IndexError\<close> in place of a \<^verbatim>\<open>PrologError\<close>; so does a compound inner term
  that holds the atom.
\<close>

theorem classify_empty_atom_raises_IndexError:
  "classify_response U (exception_reply (JStr [])) (srv, th) = Some (Inl IndexError, srv, th) \<and>
   classify_response U (exception_reply (JFunctor ''error'' [JStr []])) (srv, th) =
     Some (Inl IndexError, srv, th)"
  by (simp add: classify_exception_unfold init_exception_reply raise_def
      quote_prolog_identifier_def is_prolog_atom_def is_prolog_variable_def)

text \<open>
  C2, amended. For the reply \<^verbatim>\<open>exception(Inner)\<close>: when \<^verbatim>\<open>Inner\<close> is the atom
  \<^verbatim>\<open>no_more_results\<close> the classifier returns \<^verbatim>\<open>None\<close>; when it is the atom
  \<^verbatim>\<open>connection_failed\<close>, \<^verbatim>\<open>time_limit_exceeded\<close>, \<^verbatim>\<open>no_query\<close>,
  \<^verbatim>\<open>cancel_goal\<close> or \<^verbatim>\<open>result_not_available\<close> it raises the error of that kind
  (and sets the flag first for \<^verbatim>\<open>connection_failed\<close>); for any other \<^verbatim>\<open>Inner\<close>
  that renders as source text, a compound with one of these names included, it raises
  \<^verbatim>\<open>PrologError\<close>. A raised error keeps \<^verbatim>\<open>Inner\<close>, \<^verbatim>\<open>prolog()\<close> is its
  rendering, and \<^verbatim>\<open>is_prolog_exception\<close> compares the name of an atom, a variable or
  a compound \<^verbatim>\<open>Inner\<close>.
\<close>

theorem classify_exception:
  "classify_response U (exception_reply (JStr ''no_more_results'')) (srv, th) =
     Some (Inr RNone, srv, th) \<and>
   classify_response U (exception_reply (JStr ''connection_failed'')) (srv, th) =
     Some (Inl (Raised PrologConnectionFailedError (JStr ''connection_failed'')),
           srv\<lparr>connection_failed := True\<rparr>, th) \<and>
   classify_response U (exception_reply (JStr ''time_limit_exceeded'')) (srv, th) =
     Some (Inl (Raised PrologQueryTimeoutError (JStr ''time_limit_exceeded'')), srv, th) \<and>
   classify_response U (exception_reply (JStr ''no_query'')) (srv, th) =
     Some (Inl (Raised PrologNoQueryError (JStr ''no_query'')), srv, th) \<and>
   classify_response U (exception_reply (JStr ''cancel_goal'')) (srv, th) =
     Some (Inl (Raised PrologQueryCancelledError (JStr ''cancel_goal'')), srv, th) \<and>
   classify_response U (exception_reply (JStr ''result_not_available'')) (srv, th) =
     Some (Inl (Raised PrologResultNotAvailableError (JStr ''result_not_available'')), srv, th) \<and>
   (inner \<notin> JStr ` {''no_more_results'', ''connection_failed'', ''time_limit_exceeded'',
                      ''no_query'', ''cancel_goal'', ''result_not_available''} \<longrightarrow>
    json_to_prolog U inner = Inr msg \<longrightarrow>
      classify_response U (exception_reply inner) (srv, th) =
        Some (Inl (Raised PrologError inner), srv, th)) \<and>
   PrologError_json (Raised cls inner) = Inr inner \<and>
   PrologError_prolog U (Raised cls inner) = json_to_prolog U inner \<and>
   PrologError_is_prolog_exception U (Raised cls (JStr (c # cs))) n = Inr (c # cs = n) \<and>
   PrologError_is_prolog_exception U (Raised cls (JFunctor f xs)) n = Inr (f = n)"
proof -
  have a: "classify_response U (exception_reply (JStr ''no_more_results'')) (srv, th) =
     Some (Inr RNone, srv, th)"
    by (simp add: classify_exception_unfold return_def)
  have b: "classify_response U (exception_reply (JStr ''connection_failed'')) (srv, th) =
     Some (Inl (Raised PrologConnectionFailedError (JStr ''connection_failed'')),
           srv\<lparr>connection_failed := True\<rparr>, th)"
    by (simp add: classify_exception_unfold init_exception_reply render_protocol_atoms
        bind_def set_connection_failed_def modify_def raise_def del: json_to_prolog.simps)
  have c: "classify_response U (exception_reply (JStr ''time_limit_exceeded'')) (srv, th) =
     Some (Inl (Raised PrologQueryTimeoutError (JStr ''time_limit_exceeded'')), srv, th)"
    by (simp add: classify_exception_unfold init_exception_reply render_protocol_atoms raise_def
        del: json_to_prolog.simps)
  have d: "classify_response U (exception_reply (JStr ''no_query'')) (srv, th) =
     Some (Inl (Raised PrologNoQueryError (JStr ''no_query'')), srv, th)"
    by (simp add: classify_exception_unfold init_exception_reply render_protocol_atoms raise_def
        del: json_to_prolog.simps)
  have e: "classify_response U (exception_reply (JStr ''cancel_goal'')) (srv, th) =
     Some (Inl (Raised PrologQueryCancelledError (JStr ''cancel_goal'')), srv, th)"
    by (simp add: classify_exception_unfold init_exception_reply render_protocol_atoms raise_def
        del: json_to_prolog.simps)
  have f: "classify_response U (exception_reply (JStr ''result_not_available'')) (srv, th) =
     Some (Inl (Raised PrologResultNotAvailableError (JStr ''result_not_available'')), srv, th)"
    by (simp add: classify_exception_unfold init_exception_reply render_protocol_atoms raise_def
        del: json_to_prolog.simps)
  have g: "inner \<notin> JStr ` {''no_more_results'', ''connection_failed'', ''time_limit_exceeded'',
                      ''no_query'', ''cancel_goal'', ''result_not_available''} \<longrightarrow>
    json_to_prolog U inner = Inr msg \<longrightarrow>
      classify_response U (exception_reply inner) (srv, th) =
        Some (Inl (Raised PrologError inner), srv, th)"
    by (simp add: classify_exception_unfold init_exception_reply raise_def
        del: json_to_prolog.simps)
  have h: "PrologError_is_prolog_exception U (Raised cls (JStr (c # cs))) n = Inr (c # cs = n)"
    by (simp add: prolog_name_JStr_Cons)
  have i: "PrologError_is_prolog_exception U (Raised cls (JFunctor f xs)) n = Inr (f = n)"
    by (simp add: prolog_name_JFunctor)
  from a b c d e f g h i show ?thesis by simp
qed

text \<open>
  The classifier compares the inner term, not its name: the compound
  \<^verbatim>\<open>no_more_results(1)\<close> has the name \<^verbatim>\<open>no_more_results\<close> and raises
  \<^verbatim>\<open>PrologError\<close>.
\<close>

theorem classify_exception_compound_counterexample:
  "prolog_name sample_unicode (JFunctor ''no_more_results'' [JInt 1]) =
     Inr (JStr ''no_more_results'') \<and>
   classify_response sample_unicode (exception_reply (JFunctor ''no_more_results'' [JInt 1]))
     (PrologServer_init True None None None False None [], PrologThread_init) =
   Some (Inl (Raised PrologError (JFunctor ''no_more_results'' [JInt 1])),
         PrologServer_init True None None None False None [], PrologThread_init)"
  by code_simp

lemma classify_true_false_example:
  "classify_response sample_unicode
     (true_reply [[(''X'', JInt 1), (''Y'', JInt 1)], []])
     (PrologServer_init True None None None False None [], PrologThread_init) =
   Some (Inr (RList [ADict [(JStr ''X'', JInt 1), (JStr ''Y'', JInt 1)], ATrue]),
         PrologServer_init True None None None False None [], PrologThread_init) \<and>
   classify_response sample_unicode (true_reply [[]])
     (PrologServer_init True None None None False None [], PrologThread_init) =
   Some (Inr (RBool True), PrologServer_init True None None None False None [], PrologThread_init) \<and>
   classify_response sample_unicode (true_reply [[], [], []])
     (PrologServer_init True None None None False None [], PrologThread_init) =
   Some (Inr (RList [ATrue, ATrue, ATrue]),
         PrologServer_init True None None None False None [], PrologThread_init)"
  using classify_true_false [where answers = "[[(''X'', JInt 1), (''Y'', JInt 1)], []]"
          and U = sample_unicode
          and srv = "PrologServer_init True None None None False None []" and th = PrologThread_init]
        classify_true_false [where answers = "[[]]" and U = sample_unicode
          and srv = "PrologServer_init True None None None False None []" and th = PrologThread_init]
        classify_true_false [where answers = "[[], [], []]" and U = sample_unicode
          and srv = "PrologServer_init True None None None False None []" and th = PrologThread_init]
  by (simp add: answer_of_def)

theorem classify_exception_witness:
  "classify_response sample_unicode (exception_reply (JStr ''test''))
     (PrologServer_init True None None None False None [], PrologThread_init) =
   Some (Inl (Raised PrologError (JStr ''test'')),
         PrologServer_init True None None None False None [], PrologThread_init) \<and>
   PrologError_prolog sample_unicode (Raised PrologError (JStr ''test'')) = Inr ''test'' \<and>
   PrologError_is_prolog_exception sample_unicode (Raised PrologError (JStr ''test'')) ''test'' =
     Inr True"
proof -
  have r: "json_to_prolog sample_unicode (JStr ''test'') = Inr ''test''"
    by code_simp
  from r classify_exception [where U = sample_unicode
      and srv = "PrologServer_init True None None None False None []"
      and th = PrologThread_init and inner = "JStr ''test''" and msg = "''test''"
      and cls = PrologError and c = "CHR ''t''" and cs = "''est''" and n = "''test''"]
  show ?thesis by simp
qed
section \<open>Facts about the framed transport\<close>

lemma digit_char_props:
  assumes "d < 10"
  shows "isdigit (digit_char d)" and "digit_val (digit_char d) = d"
    and "digit_char d \<noteq> CHR ''.''" and "digit_char d \<noteq> NL" and "digit_char d \<noteq> CHR ''_''"
    and "digit_char d \<noteq> CHR ''-''" and "digit_char d \<noteq> CHR ''+''"
    and "\<not> int_space l (digit_char d)"
proof -
  have v: "(of_char (digit_char d) :: nat) = 48 + d"
    using assms by (simp add: digit_char_def)
  show "isdigit (digit_char d)" using assms v by (simp add: isdigit_def)
  show "digit_val (digit_char d) = d" using v by (simp add: digit_val_def)
  show "digit_char d \<noteq> CHR ''.''" using v assms by (auto simp del: of_char_eq_iff)
  show "digit_char d \<noteq> NL" using v assms by auto
  show "digit_char d \<noteq> CHR ''_''" using v assms by auto
  show "digit_char d \<noteq> CHR ''-''" using v assms by auto
  show "digit_char d \<noteq> CHR ''+''" using v assms by auto
  show "\<not> int_space l (digit_char d)" using v assms by (simp add: int_space_def)
qed


lemma show_nat_digits: "show_nat n \<noteq> [] \<and> list_all (\<lambda>c. \<exists>d<10. c = digit_char d) (show_nat n)"
proof (induction n rule: show_nat.induct)
  case (1 n)
  show ?case
  proof (cases "n < 10")
    case True
    then have "show_nat n = [digit_char n]" by (subst show_nat.simps) simp
    with True show ?thesis by auto
  next
    case False
    then have eq: "show_nat n = show_nat (n div 10) @ [digit_char (n mod 10)]"
      by (subst show_nat.simps) simp
    have "n mod 10 < 10" by simp
    then have "\<exists>d<10. digit_char (n mod 10) = digit_char d" by blast
    with False 1 eq show ?thesis by simp
  qed
qed

lemma int_digits_snoc:
  "list_all (\<lambda>c. \<exists>d<10. c = digit_char d) xs \<Longrightarrow> d < 10 \<Longrightarrow>
   int_digits acc (xs @ [digit_char d]) =
     (case int_digits acc xs of None \<Rightarrow> None | Some v \<Rightarrow> Some (10 * v + d))"
proof (induction xs arbitrary: acc)
  case Nil
  then show ?case by (simp add: digit_char_props)
next
  case (Cons x xs)
  then obtain e where e: "e < 10" "x = digit_char e" by auto
  from Cons e show ?case by (simp add: digit_char_props)
qed

lemma int_digits_show_nat: "int_digits 0 (show_nat n) = Some n"
proof (induction n rule: show_nat.induct)
  case (1 n)
  show ?case
  proof (cases "n < 10")
    case True
    then have "show_nat n = [digit_char n]" by (subst show_nat.simps) simp
    with True show ?thesis by (simp add: digit_char_props)
  next
    case False
    then have eq: "show_nat n = show_nat (n div 10) @ [digit_char (n mod 10)]"
      by (subst show_nat.simps) simp
    have m: "n mod 10 < 10" by simp
    have ds: "list_all (\<lambda>c. \<exists>d<10. c = digit_char d) (show_nat (n div 10))"
      using show_nat_digits by blast
    from False 1 int_digits_snoc [OF ds m, of 0] eq show ?thesis
      by simp
  qed
qed

lemma strip_unchanged:
  assumes s: "s \<noteq> []" and h: "\<not> P (hd s)" and l: "\<not> P (last s)"
  shows "rev (dropWhile P (rev (dropWhile P s))) = s"
proof -
  from s h have a: "dropWhile P s = s" by (cases s) simp_all
  from s have "rev s \<noteq> []" by simp
  then obtain y ys where r: "rev s = y # ys" by (cases "rev s") simp_all
  from s have "last s = hd (rev s)" by (simp add: hd_rev)
  with r l have "\<not> P y" by simp
  with r have "dropWhile P (rev s) = rev s" by simp
  with a show ?thesis by simp
qed

lemma isdigit_plain:
  assumes "isdigit c"
  shows "\<not> int_space l c" and "c \<noteq> CHR ''-''" and "c \<noteq> CHR ''+''"
  using assms by (auto simp: isdigit_def int_space_def Let_def)

lemma py_int_digits:
  assumes s: "s = c # cs" and c: "isdigit c" and e: "isdigit (last s)"
    and lit: "int_literal s = Some n"
  shows "py_int l s = Inr (int n)"
proof -
  have t: "rev (dropWhile (int_space l) (rev (dropWhile (int_space l) s))) = s"
    using s c e by (intro strip_unchanged) (simp_all add: isdigit_plain del: last.simps)
  have "py_int l s =
     (case s of
        [] \<Rightarrow> Inl ValueError
      | c # cs \<Rightarrow>
          if c = CHR ''-'' then
            (case int_literal cs of None \<Rightarrow> Inl ValueError | Some n \<Rightarrow> Inr (- int n))
          else if c = CHR ''+'' then
            (case int_literal cs of None \<Rightarrow> Inl ValueError | Some n \<Rightarrow> Inr (int n))
          else (case int_literal s of None \<Rightarrow> Inl ValueError | Some n \<Rightarrow> Inr (int n)))"
    unfolding py_int_def Let_def t ..
  also have "\<dots> = (case int_literal s of None \<Rightarrow> Inl ValueError | Some n \<Rightarrow> Inr (int n))"
    using isdigit_plain(2,3) [OF c] by (simp add: s)
  finally show ?thesis by (simp add: lit)
qed

lemma py_int_show_nat: "py_int l (show_nat n) = Inr (int n)"
proof -
  let ?s = "show_nat n"
  have ne: "?s \<noteq> []" and ds: "list_all (\<lambda>c. \<exists>d<10. c = digit_char d) ?s"
    using show_nat_digits by blast+
  obtain c cs where cs: "?s = c # cs" using ne by (cases ?s) simp_all
  from ds cs obtain d where d: "d < 10" "c = digit_char d" by auto
  from ne have "last ?s \<in> set ?s" by simp
  with ds obtain e where e: "e < 10" "last ?s = digit_char e"
    unfolding list_all_iff by blast
  have lit: "int_literal ?s = Some n"
    using cs d int_digits_show_nat [of n] by (simp add: int_literal_def digit_char_props)
  show ?thesis
    using cs
  proof (rule py_int_digits)
    show "isdigit c" using d by (simp add: digit_char_props)
    show "isdigit (last ?s)" using e by (simp add: digit_char_props)
    show "int_literal ?s = Some n" by (rule lit)
  qed
qed

lemma scan_header_no_newline:
  "NL \<notin> set c \<Longrightarrow> scan_header c sb = Inr (sb @ filter (\<lambda>x. x \<noteq> CHR ''.'') c, None)"
  by (induction c arbitrary: sb) auto

lemma scan_header_newline:
  "NL \<notin> set c1 \<Longrightarrow>
   scan_header (c1 @ NL # c2) sb =
     (case py_int True (sb @ filter (\<lambda>x. x \<noteq> CHR ''.'') c1) of
        Inl e \<Rightarrow> Inl e
      | Inr n \<Rightarrow> Inr (sb @ filter (\<lambda>x. x \<noteq> CHR ''.'') c1, Some (n, c2)))"
  by (induction c1 arbitrary: sb) (auto split: sum.splits)

lemma split_before_newline:
  "NL \<notin> set c \<Longrightarrow> NL \<notin> set h \<Longrightarrow> c @ xs = h @ NL # body \<Longrightarrow>
   \<exists>h'. h = c @ h' \<and> xs = h' @ NL # body"
proof (induction c arbitrary: h)
  case Nil
  then show ?case by simp
next
  case (Cons x c)
  from Cons.prems(1) have x: "x \<noteq> NL" and c: "NL \<notin> set c" by auto
  show ?case
  proof (cases h)
    case Nil
    with Cons.prems(3) x show ?thesis by simp
  next
    case (Cons y h2)
    with Cons.prems(3) have y: "y = x" and eq: "c @ xs = h2 @ NL # body" by simp_all
    from Cons.prems(2) Cons have "NL \<notin> set h2" by simp
    from Cons.IH [OF c this eq] obtain h' where "h2 = c @ h'" "xs = h' @ NL # body" by blast
    with Cons y show ?thesis by simp
  qed
qed

lemma split_at_newline:
  "NL \<notin> set c1 \<Longrightarrow> NL \<notin> set h \<Longrightarrow> c1 @ NL # ys = h @ NL # body \<Longrightarrow>
   h = c1 \<and> body = ys"
proof (induction c1 arbitrary: h)
  case Nil
  show ?case
  proof (cases h)
    case Nil
    with Nil.prems(3) show ?thesis by simp
  next
    case (Cons y h2)
    with Nil.prems(2,3) show ?thesis by simp
  qed
next
  case (Cons x c1)
  from Cons.prems(1) have x: "x \<noteq> NL" and c: "NL \<notin> set c1" by auto
  show ?case
  proof (cases h)
    case Nil
    with Cons.prems(3) x show ?thesis by simp
  next
    case (Cons y h2)
    with Cons.prems(3) have y: "y = x" and eq: "c1 @ NL # ys = h2 @ NL # body" by simp_all
    from Cons.prems(2) Cons have "NL \<notin> set h2" by simp
    from Cons.IH [OF c this eq] Cons y show ?thesis by simp
  qed
qed

lemma sock_recv_Data:
  "connected s \<Longrightarrow> \<not> closed s \<Longrightarrow> incoming s = Data c # rest \<Longrightarrow>
   sock_recv s = (Inr c, s\<lparr>incoming := rest\<rparr>)"
  by (simp add: sock_recv_def)

lemma sock_recv_eof:
  "connected s \<Longrightarrow> \<not> closed s \<Longrightarrow> incoming s = [] \<Longrightarrow> sock_recv s = (Inr [], s)"
  by (simp add: sock_recv_def)

lemma receive_loop_body:
  assumes "amount_expected st = Some (int N)"
    and "connected s" and "\<not> closed s"
    and "incoming s = map Data chunks @ rest"
    and "[] \<notin> set chunks"
    and "amount_received st + length (concat chunks) = N"
  shows "receive_loop st s = Some (Inr (bytesReceived st @ concat chunks), s\<lparr>incoming := rest\<rparr>)"
  using assms
proof (induction chunks arbitrary: st s)
  case Nil
  then have "\<not> loop_condition st" by (simp add: loop_condition_def)
  moreover from Nil have "s\<lparr>incoming := rest\<rparr> = s" by simp
  ultimately show ?case by (subst receive_loop.simps) simp
next
  case (Cons c chunks)
  from Cons.prems obtain x xs where c: "c = x # xs" by (cases c) auto
  with Cons.prems(6) have "amount_received st < N" by simp
  with Cons.prems(1) have lc: "loop_condition st" by (simp add: loop_condition_def)
  let ?st = "accumulate c (st\<lparr>data := Some c\<rparr>)"
  let ?s = "s\<lparr>incoming := map Data chunks @ rest\<rparr>"
  have recv: "sock_recv s = (Inr c, ?s)"
    using Cons.prems by (intro sock_recv_Data) simp_all
  have step: "receive_loop st s = receive_loop ?st ?s"
    using lc recv Cons.prems(1) by (subst receive_loop.simps) simp
  have "receive_loop ?st ?s =
        Some (Inr (bytesReceived ?st @ concat chunks), ?s\<lparr>incoming := rest\<rparr>)"
    using Cons.prems by (intro Cons.IH) (simp_all add: accumulate_def)
  with step show ?case by (simp add: accumulate_def)
qed

lemma receive_loop_header:
  assumes "amount_expected st = None" and "data st = None"
    and "amount_received st = 0" and "bytesReceived st = []"
    and "connected s" and "\<not> closed s"
    and "incoming s = map Data chunks @ rest"
    and "[] \<notin> set chunks"
    and "concat chunks = h @ NL # body" and "NL \<notin> set h"
    and "py_int True (sizeBytes st @ filter (\<lambda>x. x \<noteq> CHR ''.'') h) = Inr (int (length body))"
  shows "receive_loop st s = Some (Inr body, s\<lparr>incoming := rest\<rparr>)"
  using assms
proof (induction chunks arbitrary: st s h)
  case Nil
  then show ?case by simp
next
  case (Cons c chunks)
  have lc: "loop_condition st" using Cons.prems(1) by (simp add: loop_condition_def)
  let ?s = "s\<lparr>incoming := map Data chunks @ rest\<rparr>"
  have recv: "sock_recv s = (Inr c, ?s)"
    using Cons.prems by (intro sock_recv_Data) simp_all
  have cat: "c @ concat chunks = h @ NL # body" using Cons.prems by simp
  show ?case
  proof (cases "NL \<in> set c")
    case False
    from split_before_newline [OF False Cons.prems(10) cat]
    obtain h' where h: "h = c @ h'" and rest': "concat chunks = h' @ NL # body"
      by blast
    let ?st = "st\<lparr>sizeBytes := sizeBytes st @ filter (\<lambda>x. x \<noteq> CHR ''.'') c\<rparr>"
    have step: "receive_loop st s = receive_loop ?st ?s"
      using lc recv Cons.prems(1,2) scan_header_no_newline [OF False]
      by (subst receive_loop.simps) simp
    have "receive_loop ?st ?s = Some (Inr body, ?s\<lparr>incoming := rest\<rparr>)"
      using Cons.prems h rest' by (intro Cons.IH [of _ _ h']) simp_all
    with step show ?thesis by simp
  next
    case True
    then obtain c1 c2 where c: "c = c1 @ NL # c2" and c1: "NL \<notin> set c1"
      by (meson split_list_first)
    from cat c have "c1 @ NL # (c2 @ concat chunks) = h @ NL # body" by simp
    from split_at_newline [OF c1 Cons.prems(10) this]
    have hc: "h = c1" and bc: "body = c2 @ concat chunks" by simp_all
    let ?sb = "sizeBytes st @ filter (\<lambda>x. x \<noteq> CHR ''.'') c1"
    let ?st = "accumulate c2
      (st\<lparr>sizeBytes := ?sb, amount_expected := Some (int (length body)), data := Some c2\<rparr>)"
    have scan: "scan_header c (sizeBytes st) = Inr (?sb, Some (int (length body), c2))"
      using scan_header_newline [OF c1, of c2 "sizeBytes st"] Cons.prems(11) hc c by simp
    have step: "receive_loop st s = receive_loop ?st ?s"
      using lc recv Cons.prems(1) scan by (subst receive_loop.simps) simp
    have "receive_loop ?st ?s =
          Some (Inr (bytesReceived ?st @ concat chunks), ?s\<lparr>incoming := rest\<rparr>)"
      using Cons.prems bc
      by (intro receive_loop_body [where N = "length body"]) (simp_all add: accumulate_def)
    with step Cons.prems(4) bc show ?thesis by (simp add: accumulate_def)
  qed
qed

lemma receive_loop_closed_aux:
  assumes "receive_loop st s = Some y"
  shows "loop_condition st \<longrightarrow> connected s \<longrightarrow> \<not> closed s \<longrightarrow> incoming s = [] \<longrightarrow>
         (amount_expected st = None \<longrightarrow> data st = None) \<longrightarrow> False"
  using assms
proof (induction rule: receive_loop.raw_induct)
  case (1 loop st s y)
  show ?case
  proof (intro impI)
    assume lc: "loop_condition st" and co: "connected s" and cl: "\<not> closed s"
      and inc: "incoming s = []" and inv: "amount_expected st = None \<longrightarrow> data st = None"
    have recv: "sock_recv s = (Inr [], s)"
      using co cl inc by (rule sock_recv_eof)
    show False
    proof (cases "amount_expected st")
      case None
      with inv have d: "data st = None" by simp
      let ?st = "st\<lparr>sizeBytes := sizeBytes st\<rparr>"
      from "1.hyps" lc recv None d have call: "loop ?st s = Some y" by simp
      from "1.prems" lc recv None d have real: "receive_loop ?st s = Some y"
        by (subst (asm) receive_loop.simps) simp
      have "loop_condition ?st"
        using lc by (simp add: loop_condition_def)
      moreover have "amount_expected ?st = None \<longrightarrow> data ?st = None"
        using d by simp
      ultimately show False
        using "1.IH" [OF call real] co cl inc by simp
    next
      case (Some n)
      let ?st = "accumulate [] (st\<lparr>data := Some []\<rparr>)"
      from "1.hyps" lc recv Some have call: "loop ?st s = Some y" by simp
      from "1.prems" lc recv Some have real: "receive_loop ?st s = Some y"
        by (subst (asm) receive_loop.simps) simp
      have "loop_condition ?st"
        using lc Some by (simp add: loop_condition_def accumulate_def)
      moreover have "amount_expected ?st = None \<longrightarrow> data ?st = None"
        using Some by (simp add: accumulate_def)
      ultimately show False
        using "1.IH" [OF call real] co cl inc by simp
    qed
  qed
qed (rule assms)

lemma receive_loop_closed:
  assumes "loop_condition st" and "connected s" and "\<not> closed s" and "incoming s = []"
    and "amount_expected st = None \<longrightarrow> data st = None"
  shows "receive_loop st s = None"
proof (cases "receive_loop st s")
  case None
  then show ?thesis .
next
  case (Some y)
  from receive_loop_closed_aux [OF Some] assms show ?thesis by blast
qed

text \<open>Body phase, stream closed before the declared length.\<close>

lemma receive_loop_body_incomplete:
  assumes "amount_expected st = Some (int N)"
    and "connected s" and "\<not> closed s"
    and "incoming s = map Data chunks"
    and "amount_received st + length (concat chunks) < N"
  shows "receive_loop st s = None"
  using assms
proof (induction chunks arbitrary: st s)
  case Nil
  then show ?case
    by (intro receive_loop_closed) (simp_all add: loop_condition_def)
next
  case (Cons c chunks)
  then have lc: "loop_condition st" by (simp add: loop_condition_def)
  let ?st = "accumulate c (st\<lparr>data := Some c\<rparr>)"
  let ?s = "s\<lparr>incoming := map Data chunks\<rparr>"
  have recv: "sock_recv s = (Inr c, ?s)"
    using Cons.prems by (intro sock_recv_Data) simp_all
  have step: "receive_loop st s = receive_loop ?st ?s"
    using lc recv Cons.prems(1) by (subst receive_loop.simps) simp
  have "receive_loop ?st ?s = None"
    using Cons.prems by (intro Cons.IH) (simp_all add: accumulate_def)
  with step show ?case by simp
qed

text \<open>Header phase, stream closed before the newline or before the declared length.\<close>

lemma receive_loop_header_incomplete:
  assumes "amount_expected st = None" and "data st = None"
    and "amount_received st = 0"
    and "connected s" and "\<not> closed s"
    and "incoming s = map Data chunks"
    and "concat chunks @ missing = h @ NL # body" and "NL \<notin> set h" and "missing \<noteq> []"
    and "py_int True (sizeBytes st @ filter (\<lambda>x. x \<noteq> CHR ''.'') h) = Inr (int (length body))"
  shows "receive_loop st s = None"
  using assms
proof (induction chunks arbitrary: st s h)
  case Nil
  then show ?case
    by (intro receive_loop_closed) (simp_all add: loop_condition_def)
next
  case (Cons c chunks)
  have lc: "loop_condition st" using Cons.prems(1) by (simp add: loop_condition_def)
  let ?s = "s\<lparr>incoming := map Data chunks\<rparr>"
  have recv: "sock_recv s = (Inr c, ?s)"
    using Cons.prems by (intro sock_recv_Data) simp_all
  have cat: "c @ (concat chunks @ missing) = h @ NL # body" using Cons.prems by simp
  show ?case
  proof (cases "NL \<in> set c")
    case False
    from split_before_newline [OF False Cons.prems(8) cat]
    obtain h' where h: "h = c @ h'" and rest': "concat chunks @ missing = h' @ NL # body"
      by blast
    let ?st = "st\<lparr>sizeBytes := sizeBytes st @ filter (\<lambda>x. x \<noteq> CHR ''.'') c\<rparr>"
    have step: "receive_loop st s = receive_loop ?st ?s"
      using lc recv Cons.prems(1,2) scan_header_no_newline [OF False]
      by (subst receive_loop.simps) simp
    have "receive_loop ?st ?s = None"
      using Cons.prems h rest' by (intro Cons.IH [of _ _ h']) simp_all
    with step show ?thesis by simp
  next
    case True
    then obtain c1 c2 where c: "c = c1 @ NL # c2" and c1: "NL \<notin> set c1"
      by (meson split_list_first)
    from cat c have "c1 @ NL # (c2 @ concat chunks @ missing) = h @ NL # body" by simp
    from split_at_newline [OF c1 Cons.prems(8) this]
    have hc: "h = c1" and bc: "body = c2 @ concat chunks @ missing" by simp_all
    let ?sb = "sizeBytes st @ filter (\<lambda>x. x \<noteq> CHR ''.'') c1"
    let ?st = "accumulate c2
      (st\<lparr>sizeBytes := ?sb, amount_expected := Some (int (length body)), data := Some c2\<rparr>)"
    have scan: "scan_header c (sizeBytes st) = Inr (?sb, Some (int (length body), c2))"
      using scan_header_newline [OF c1, of c2 "sizeBytes st"] Cons.prems(10) hc c by simp
    have step: "receive_loop st s = receive_loop ?st ?s"
      using lc recv Cons.prems(1) scan by (subst receive_loop.simps) simp
    from Cons.prems(9) obtain m ms where "missing = m # ms" by (cases missing) simp_all
    with bc have lt: "length c2 + length (concat chunks) < length body" by simp
    have "receive_loop ?st ?s = None"
      using Cons.prems(3,4,5) lt
      by (intro receive_loop_body_incomplete [where N = "length body"])
        (simp_all add: accumulate_def)
    with step show ?thesis by simp
  qed
qed

lemma show_nat_all:
  assumes "\<And>d. d < 10 \<Longrightarrow> Q (digit_char d)"
  shows "list_all Q (show_nat n)"
proof -
  have ds: "list_all (\<lambda>c. \<exists>d<10. c = digit_char d) (show_nat n)"
    using show_nat_digits by blast
  show ?thesis
  proof (rule list.pred_mono_strong [OF ds])
    fix z
    assume "\<exists>d<10. z = digit_char d"
    then obtain d where "d < 10" and "z = digit_char d" by blast
    with assms show "Q z" by simp
  qed
qed

lemma show_nat_no_newline: "NL \<notin> set (show_nat n)"
proof -
  have "list_all (\<lambda>c. c \<noteq> NL) (show_nat n)"
    by (rule show_nat_all) (rule digit_char_props(4))
  then show ?thesis
    unfolding list_all_iff by blast
qed

lemma show_nat_no_dot: "filter (\<lambda>x. x \<noteq> CHR ''.'') (show_nat n) = show_nat n"
proof -
  have "list_all (\<lambda>c. c \<noteq> CHR ''.'') (show_nat n)"
    by (rule show_nat_all) (rule digit_char_props(3))
  then show ?thesis
    unfolding list_all_iff by (simp add: filter_id_conv)
qed

lemma show_nat_isdigit: "list_all isdigit (show_nat n)"
  by (rule show_nat_all) (rule digit_char_props(1))

lemma frame_header_no_newline:
  "NL \<notin> set (replicate k (CHR ''.'') @ show_nat n @ [CHR ''.''])"
  using show_nat_no_newline [of n] by simp

lemma frame_header_digits:
  "filter (\<lambda>x. x \<noteq> CHR ''.'') (replicate k (CHR ''.'') @ show_nat n @ [CHR ''.'']) = show_nat n"
  using show_nat_no_dot [of n] by simp

text \<open>
  C4. A framed message is any number of \<^verbatim>\<open>.\<close> keepalive bytes, the decimal digits
  of the length of the body, \<^verbatim>\<open>.\<close> and a newline, and the body. However its bytes
  are cut into successive non-empty reads, \<^verbatim>\<open>_receive\<close> returns the UTF-8 decoding
  of exactly the body and has consumed exactly these reads.
\<close>

theorem receive_reconstructs_message:
  assumes "socket th = Some s" and "connected s" and "\<not> closed s"
    and "incoming s = map Data chunks @ rest" and "[] \<notin> set chunks"
    and "concat chunks =
           replicate k (CHR ''.'') @ show_nat (length body) @ [CHR ''.'', NL] @ body"
  shows "receive (srv, th) =
           Some (decode_utf8 body, srv, th\<lparr>socket := Some (s\<lparr>incoming := rest\<rparr>)\<rparr>)"
proof -
  let ?h = "replicate k (CHR ''.'') @ show_nat (length body) @ [CHR ''.'']"
  have cat: "concat chunks = ?h @ NL # body" using assms(6) by simp
  have "receive_loop rstate_init s = Some (Inr body, s\<lparr>incoming := rest\<rparr>)"
  proof (rule receive_loop_header [OF _ _ _ _ assms(2,3,4,5) cat])
    show "NL \<notin> set ?h" by (rule frame_header_no_newline)
    show "py_int True (sizeBytes rstate_init @ filter (\<lambda>x. x \<noteq> CHR ''.'') ?h) =
          Inr (int (length body))"
      unfolding frame_header_digits by (simp add: rstate_init_def py_int_show_nat)
  qed (simp_all add: rstate_init_def)
  with assms(1) show ?thesis by (simp add: receive_def)
qed

text \<open>
  C3 (the code does otherwise). When the peer closes the connection before the framed
  message is complete, in the header or in the body, every further \<^verbatim>\<open>recv\<close> returns
  the empty bytes, the loop of \<^verbatim>\<open>_receive\<close> makes no progress, and
  \<^verbatim>\<open>_receive\<close> never returns: it raises no transport error.
\<close>

theorem receive_hangs_on_closed_connection:
  assumes "socket th = Some s" and "connected s" and "\<not> closed s"
    and "incoming s = map Data chunks"
    and "concat chunks @ missing =
           replicate k (CHR ''.'') @ show_nat (length body) @ [CHR ''.'', NL] @ body"
    and "missing \<noteq> []"
  shows "receive (srv, th) = None"
proof -
  let ?h = "replicate k (CHR ''.'') @ show_nat (length body) @ [CHR ''.'']"
  have cat: "concat chunks @ missing = ?h @ NL # body" using assms(5) by simp
  have "receive_loop rstate_init s = None"
  proof (rule receive_loop_header_incomplete [OF _ _ _ assms(2,3,4) cat _ assms(6)])
    show "NL \<notin> set ?h" by (rule frame_header_no_newline)
    show "py_int True (sizeBytes rstate_init @ filter (\<lambda>x. x \<noteq> CHR ''.'') ?h) =
          Inr (int (length body))"
      unfolding frame_header_digits by (simp add: rstate_init_def py_int_show_nat)
  qed (simp_all add: rstate_init_def)
  with assms(1) show ?thesis by (simp add: receive_def)
qed

lemma bind_Inr: "m s = Some (Inr a, s') \<Longrightarrow> bind m f s = f a s'"
  by (simp add: bind_def)

lemma socket_sendall_ok:
  "socket th = Some s \<Longrightarrow> connected s \<Longrightarrow> \<not> closed s \<Longrightarrow> \<not> send_fails s \<Longrightarrow>
   socket_sendall d (srv, th) = Some (Inr (), srv, th\<lparr>socket := Some (s\<lparr>sent := sent s @ [d]\<rparr>)\<rparr>)"
  by (simp add: socket_sendall_def sock_sendall_def)

lemma send_ok:
  assumes "socket th = Some s" and "connected s" and "\<not> closed s" and "\<not> send_fails s"
  shows "send U val (srv, th) =
     Some (Inr (), srv,
       th\<lparr>socket := Some (s\<lparr>sent := sent s @
         [show_nat (length (rstrip [NL, CHR ''.''] (strip U val) @ [CHR ''.'', NL])) @ [CHR ''.'', NL],
          rstrip [NL, CHR ''.''] (strip U val) @ [CHR ''.'', NL]]\<rparr>)\<rparr>)"
proof -
  let ?body = "rstrip [NL, CHR ''.''] (strip U val) @ [CHR ''.'', NL]"
  let ?hdr = "show_nat (length ?body) @ [CHR ''.'', NL]"
  let ?th = "th\<lparr>socket := Some (s\<lparr>sent := sent s @ [?hdr]\<rparr>)\<rparr>"
  have one: "socket_sendall ?hdr (srv, th) = Some (Inr (), srv, ?th)"
    using assms by (rule socket_sendall_ok)
  have two: "socket_sendall ?body (srv, ?th) =
      Some (Inr (), srv, ?th\<lparr>socket := Some ((s\<lparr>sent := sent s @ [?hdr]\<rparr>)\<lparr>sent :=
        sent (s\<lparr>sent := sent s @ [?hdr]\<rparr>) @ [?body]\<rparr>)\<rparr>)"
    using assms by (intro socket_sendall_ok) simp_all
  have "send U val (srv, th) = socket_sendall ?body (srv, ?th)"
    unfolding send_def Let_def encode_utf8_def bind_def one by simp
  with two show ?thesis by simp
qed

text \<open>
  C5. On a connected socket \<^verbatim>\<open>_send\<close> writes two items, the header and then the
  body. The body is the text stripped of surrounding white space and then of trailing
  \<^verbatim>\<open>.\<close> and newline characters, followed by \<^verbatim>\<open>.\<close> and a newline, UTF-8 encoded.
  The header is decimal digits followed by \<^verbatim>\<open>.\<close> and a newline, and the digits
  read as the number of bytes of the body.
\<close>

theorem send_frames_message:
  assumes "socket th = Some s" and "connected s" and "\<not> closed s" and "\<not> send_fails s"
  shows "let body = encode_utf8 (rstrip [NL, CHR ''.''] (strip U val) @ [CHR ''.'', NL]);
             digits = show_nat (length body)
         in send U val (srv, th) =
              Some (Inr (), srv,
                th\<lparr>socket := Some (s\<lparr>sent := sent s @
                  [encode_utf8 (digits @ [CHR ''.'', NL]), body]\<rparr>)\<rparr>) \<and>
            list_all isdigit digits \<and>
            py_int False digits = Inr (int (length body))"
  unfolding Let_def encode_utf8_def
  by (intro conjI send_ok [OF assms] show_nat_isdigit py_int_show_nat)

lemma show_nat_7: "show_nat 7 = ''7''"
  by code_simp

theorem receive_reconstructs_message_witness:
  "receive
     (new_server,
      session_on (open_socket (map (\<lambda>c. Data [c]) (''..7.'' @ [NL] @ ''hello.'' @ [NL])))) =
   Some (Inr (''hello.'' @ [NL]), new_server, session_on (open_socket []))"
proof -
  let ?chunks = "map (\<lambda>c. [c]) (''..7.'' @ [NL] @ ''hello.'' @ [NL])"
  let ?s = "open_socket (map (\<lambda>c. Data [c]) (''..7.'' @ [NL] @ ''hello.'' @ [NL]))"
  have len: "length (''hello.'' @ [NL]) = 7" by simp
  have cat: "concat ?chunks =
      replicate 2 (CHR ''.'') @ show_nat (length (''hello.'' @ [NL])) @ [CHR ''.'', NL] @
      (''hello.'' @ [NL])"
    unfolding len show_nat_7 by (simp add: numeral_2_eq_2)
  have "receive (new_server, session_on ?s) =
        Some (decode_utf8 (''hello.'' @ [NL]), new_server,
              (session_on ?s)\<lparr>socket := Some (?s\<lparr>incoming := []\<rparr>)\<rparr>)"
    by (rule receive_reconstructs_message [OF _ _ _ _ _ cat, where s = "?s"])
       (simp_all add: session_on_def open_socket_def)
  then show ?thesis
    by (simp add: decode_utf8_def byte_in_def session_on_def open_socket_def)
qed

theorem receive_hangs_on_closed_connection_witness:
  "receive (new_server, session_on (open_socket [Data (''7.'' @ [NL] @ ''hel'')])) = None \<and>
   receive (new_server, session_on (open_socket [Data ''7'', Data ''.''])) = None"
proof -
  have len: "length (''hello.'' @ [NL]) = 7" by simp
  have cat1: "concat [''7.'' @ [NL] @ ''hel''] @ (''lo.'' @ [NL]) =
      replicate 0 (CHR ''.'') @ show_nat (length (''hello.'' @ [NL])) @ [CHR ''.'', NL] @
      (''hello.'' @ [NL])"
    unfolding len show_nat_7 by simp
  have cat2: "concat [''7'', ''.''] @ (NL # ''hello.'' @ [NL]) =
      replicate 0 (CHR ''.'') @ show_nat (length (''hello.'' @ [NL])) @ [CHR ''.'', NL] @
      (''hello.'' @ [NL])"
    unfolding len show_nat_7 by simp
  have so: "socket (session_on s) = Some s" for s
    by (simp add: session_on_def)
  have a: "receive (new_server, session_on (open_socket [Data (''7.'' @ [NL] @ ''hel'')])) = None"
    by (rule receive_hangs_on_closed_connection [OF so _ _ _ cat1])
       (simp_all add: open_socket_def)
  have b: "receive (new_server, session_on (open_socket [Data ''7'', Data ''.''])) = None"
    by (rule receive_hangs_on_closed_connection [OF so _ _ _ cat2])
       (simp_all add: open_socket_def)
  from a b show ?thesis by simp
qed

theorem send_frames_message_witness:
  "send sample_unicode (''  hello..'' @ [NL] @ '' '') (new_server, session_on (open_socket [])) =
   Some (Inr (), new_server,
         session_on ((open_socket [])\<lparr>sent := [''7.'' @ [NL], ''hello.'' @ [NL]]\<rparr>)) \<and>
   send sample_unicode ([CHR 0xC2, CHR 0xA0] @ ''hello'') (new_server, session_on (open_socket [])) =
   Some (Inr (), new_server,
         session_on ((open_socket [])\<lparr>sent := [''7.'' @ [NL], ''hello.'' @ [NL]]\<rparr>))"
proof -
  have body:
    "rstrip [NL, CHR ''.''] (strip sample_unicode (''  hello..'' @ [NL] @ '' '')) @ [CHR ''.'', NL] =
       ''hello.'' @ [NL]"
    "rstrip [NL, CHR ''.''] (strip sample_unicode ([CHR 0xC2, CHR 0xA0] @ ''hello'')) @ [CHR ''.'', NL] =
       ''hello.'' @ [NL]"
    by code_simp+
  have len: "length (''hello.'' @ [NL]) = 7" by simp
  note w = send_frames_message [where th = "session_on (open_socket [])" and s = "open_socket []"
      and U = sample_unicode and srv = new_server]
  from w [where val = "''  hello..'' @ [NL] @ '' ''"]
       w [where val = "[CHR 0xC2, CHR 0xA0] @ ''hello''"]
  show ?thesis
    unfolding Let_def encode_utf8_def body len show_nat_7
    by (simp add: session_on_def open_socket_def PrologThread_init_def)
qed

section \<open>The flag \<^verbatim>\<open>connection_failed\<close>\<close>

subsection \<open>Rules for the combinators\<close>

lemma keeps_flagI:
  "(\<And>s r s'. fl s \<Longrightarrow> m s = Some (r, s') \<Longrightarrow> fl s') \<Longrightarrow> keeps_flag fl m"
  by (simp add: keeps_flag_def)

lemma keeps_flagD: "keeps_flag fl m \<Longrightarrow> fl s \<Longrightarrow> m s = Some (r, s') \<Longrightarrow> fl s'"
  unfolding keeps_flag_def by blast

lemma calmI:
  "(\<And>s r s'. m s = Some (r, s') \<Longrightarrow> fl s' = fl s \<or> (\<exists>e. r = Inl e \<and> \<not> transport_error e)) \<Longrightarrow>
   calm fl m"
  by (simp add: calm_def)

lemma calmD:
  "calm fl m \<Longrightarrow> m s = Some (r, s') \<Longrightarrow> fl s' = fl s \<or> (\<exists>e. r = Inl e \<and> \<not> transport_error e)"
  unfolding calm_def by blast

text \<open>An operation that never touches the flag.\<close>

lemma untouched_keeps:
  "(\<And>s r s'. m s = Some (r, s') \<Longrightarrow> fl s' = fl s) \<Longrightarrow> keeps_flag fl m"
  by (rule keeps_flagI) simp

lemma untouched_calm:
  "(\<And>s r s'. m s = Some (r, s') \<Longrightarrow> fl s' = fl s) \<Longrightarrow> calm fl m"
  by (rule calmI) simp

lemma bind_cases:
  assumes "bind m f s = Some (r, s')"
  obtains (raised) e where "m s = Some (Inl e, s')" and "r = Inl e"
        | (returned) a s1 where "m s = Some (Inr a, s1)" and "f a s1 = Some (r, s')"
proof (cases "m s")
  case None
  with assms show ?thesis by (simp add: bind_def)
next
  case (Some p)
  obtain x s1 where p: "p = (x, s1)" by (cases p)
  show ?thesis
  proof (cases x)
    case (Inl e)
    with Some p assms raised show ?thesis by (simp add: bind_def)
  next
    case (Inr a)
    with Some p assms returned show ?thesis by (simp add: bind_def)
  qed
qed

lemma keeps_bind:
  assumes "keeps_flag fl m" and "\<And>a. keeps_flag fl (f a)"
  shows "keeps_flag fl (bind m f)"
proof (rule keeps_flagI)
  fix s r s'
  assume fl: "fl s" and b: "bind m f s = Some (r, s')"
  from b show "fl s'"
  proof (cases rule: bind_cases)
    case (raised e)
    with assms(1) fl show ?thesis by (blast dest: keeps_flagD)
  next
    case (returned a s1)
    from keeps_flagD [OF assms(1) fl returned(1)] have "fl s1" .
    from keeps_flagD [OF assms(2) this returned(2)] show ?thesis .
  qed
qed

lemma calm_bind:
  assumes "calm fl m" and "\<And>a. calm fl (f a)"
  shows "calm fl (bind m f)"
proof (rule calmI)
  fix s r s'
  assume b: "bind m f s = Some (r, s')"
  from b show "fl s' = fl s \<or> (\<exists>e. r = Inl e \<and> \<not> transport_error e)"
  proof (cases rule: bind_cases)
    case (raised e)
    with calmD [OF assms(1) raised(1)] show ?thesis by simp
  next
    case (returned a s1)
    from calmD [OF assms(1) returned(1)] have "fl s1 = fl s" by simp
    with calmD [OF assms(2) returned(2)] show ?thesis by simp
  qed
qed

lemma keeps_return: "keeps_flag fl (return a)"
  by (rule untouched_keeps) (simp add: return_def)

lemma keeps_raise: "keeps_flag fl (raise e)"
  by (rule untouched_keeps) (simp add: raise_def)

lemma keeps_lift: "keeps_flag fl (lift x)"
  by (rule untouched_keeps) (simp add: lift_def)

lemma calm_return: "calm fl (return a)"
  by (rule untouched_calm) (simp add: return_def)

lemma calm_raise: "calm fl (raise e)"
  by (rule untouched_calm) (simp add: raise_def)

lemma calm_lift: "calm fl (lift x)"
  by (rule untouched_calm) (simp add: lift_def)

lemma keeps_if: "keeps_flag fl m1 \<Longrightarrow> keeps_flag fl m2 \<Longrightarrow> keeps_flag fl (if c then m1 else m2)"
  by simp

lemma calm_if: "calm fl m1 \<Longrightarrow> calm fl m2 \<Longrightarrow> calm fl (if c then m1 else m2)"
  by simp

lemma keeps_let: "(\<And>x. keeps_flag fl (f x)) \<Longrightarrow> keeps_flag fl (let x = v in f x)"
  by simp

lemma calm_let: "(\<And>x. calm fl (f x)) \<Longrightarrow> calm fl (let x = v in f x)"
  by simp

text \<open>Tests, reads and assignments of the state.\<close>

lemma keeps_branch: "keeps_flag fl m1 \<Longrightarrow> keeps_flag fl m2 \<Longrightarrow> keeps_flag fl (branch c m1 m2)"
proof (rule keeps_flagI)
  fix s r s'
  assume k1: "keeps_flag fl m1" and k2: "keeps_flag fl m2"
    and f: "fl s" and b: "branch c m1 m2 s = Some (r, s')"
  show "fl s'"
  proof (cases "c s")
    case True
    with b have "m1 s = Some (r, s')" by (simp add: branch_def)
    from keeps_flagD [OF k1 f this] show ?thesis .
  next
    case False
    with b have "m2 s = Some (r, s')" by (simp add: branch_def)
    from keeps_flagD [OF k2 f this] show ?thesis .
  qed
qed

lemma calm_branch: "calm fl m1 \<Longrightarrow> calm fl m2 \<Longrightarrow> calm fl (branch c m1 m2)"
proof (rule calmI)
  fix s r s'
  assume c1: "calm fl m1" and c2: "calm fl m2" and b: "branch c m1 m2 s = Some (r, s')"
  show "fl s' = fl s \<or> (\<exists>e. r = Inl e \<and> \<not> transport_error e)"
  proof (cases "c s")
    case True
    with b have "m1 s = Some (r, s')" by (simp add: branch_def)
    from calmD [OF c1 this] show ?thesis .
  next
    case False
    with b have "m2 s = Some (r, s')" by (simp add: branch_def)
    from calmD [OF c2 this] show ?thesis .
  qed
qed

lemma keeps_get: "keeps_flag fl (get f)"
  by (rule untouched_keeps) (simp add: get_def)

lemma calm_get: "calm fl (get f)"
  by (rule untouched_calm) (simp add: get_def)

lemma keeps_modify: "(\<And>s. fl (f s) = fl s) \<Longrightarrow> keeps_flag fl (modify f)"
  by (rule untouched_keeps) (auto simp: modify_def)

lemma calm_modify: "(\<And>s. fl (f s) = fl s) \<Longrightarrow> calm fl (modify f)"
  by (rule untouched_calm) (auto simp: modify_def)

lemma keeps_except: "keeps_flag fl m \<Longrightarrow> keeps_flag fl (except_OSError m)"
  unfolding keeps_flag_def except_OSError_def
  by (auto split: option.splits sum.splits if_splits)

lemma calm_except: "calm fl m \<Longrightarrow> calm fl (except_OSError m)"
proof (rule calmI)
  fix s r s'
  assume c: "calm fl m" and e: "except_OSError m s = Some (r, s')"
  show "fl s' = fl s \<or> (\<exists>e. r = Inl e \<and> \<not> transport_error e)"
  proof (cases "m s")
    case None
    with e show ?thesis by (simp add: except_OSError_def)
  next
    case (Some p)
    obtain x s1 where p: "p = (x, s1)" by (cases p)
    with Some have ms: "m s = Some (x, s1)" by simp
    show ?thesis
    proof (cases x)
      case (Inl err)
      show ?thesis
      proof (cases "err = OSError")
        case True
        with Inl ms e have "s' = s1" by (simp add: except_OSError_def)
        moreover from calmD [OF c ms] Inl True have "fl s1 = fl s"
          by (simp add: transport_error_def)
        ultimately show ?thesis by simp
      next
        case False
        with Inl ms e have "s' = s1" and "r = Inl err" by (simp_all add: except_OSError_def)
        with calmD [OF c ms] Inl show ?thesis by simp
      qed
    next
      case (Inr a)
      with ms e have "s' = s1" by (simp add: except_OSError_def)
      with calmD [OF c ms] Inr show ?thesis by simp
    qed
  qed
qed

subsection \<open>Socket operations and the classifier\<close>

lemma untouched_session:
  assumes "\<And>srv th r srv' th'. m (srv, th) = Some (r, srv', th') \<Longrightarrow>
             connection_failed srv' = connection_failed srv"
  shows "keeps_flag flag m" and "calm flag m"
proof -
  have u: "flag s' = flag s" if "m s = Some (r, s')" for s r s'
    using that assms [of "fst s" "snd s" r "fst s'" "snd s'"] by (simp add: flag_def)
  show "keeps_flag flag m" using u by (rule untouched_keeps)
  show "calm flag m" using u by (rule untouched_calm)
qed

lemma untouched_server:
  assumes "\<And>srv r srv'. m srv = Some (r, srv') \<Longrightarrow> connection_failed srv' = connection_failed srv"
  shows "keeps_flag connection_failed m" and "calm connection_failed m"
proof -
  show "keeps_flag connection_failed m" using assms by (rule untouched_keeps)
  show "calm connection_failed m" using assms by (rule untouched_calm)
qed

lemma socket_sendall_flag: "keeps_flag flag (socket_sendall d)" "calm flag (socket_sendall d)"
  by (rule untouched_session, auto simp: socket_sendall_def split: option.splits prod.splits)+

lemma receive_flag: "keeps_flag flag receive" "calm flag receive"
  by (rule untouched_session,
      auto simp: receive_def split: option.splits prod.splits sum.splits)+

lemma close_socket_flag: "keeps_flag flag close_socket" "calm flag close_socket"
  by (rule untouched_session, auto simp: close_socket_def split: option.splits)+

lemma new_socket_flag: "keeps_flag flag new_socket" "calm flag new_socket"
  by (rule untouched_session, auto simp: new_socket_def split: list.splits)+

lemma socket_connect_flag: "keeps_flag flag socket_connect" "calm flag socket_connect"
  by (rule untouched_session,
      auto simp: socket_connect_def split: option.splits prod.splits if_splits)+

lemma set_communication_thread_id_flag:
  "keeps_flag flag (set_communication_thread_id c)" "calm flag (set_communication_thread_id c)"
  by (rule untouched_session, auto simp: set_communication_thread_id_def modify_def)+

lemma set_goal_thread_id_flag:
  "keeps_flag flag (set_goal_thread_id g)" "calm flag (set_goal_thread_id g)"
  by (rule untouched_session, auto simp: set_goal_thread_id_def modify_def)+

lemma send_flag: "keeps_flag flag (send U v)" "calm flag (send U v)"
  unfolding send_def Let_def
  by (intro keeps_bind calm_bind socket_sendall_flag)+

lemma set_connection_failed_keeps: "keeps_flag flag set_connection_failed"
  by (rule keeps_flagI) (auto simp: set_connection_failed_def modify_def flag_def)

lemma classify_keeps: "keeps_flag flag (classify_response U j)"
  unfolding classify_response_def
  by (intro keeps_bind keeps_if keeps_lift keeps_return keeps_raise set_connection_failed_keeps)

text \<open>What the classifier does to the state.\<close>

lemma PrologError_init_connection_failed:
  assumes "args0 j = Inr (JStr ''connection_failed'')"
  shows "\<not> transport_error (PrologError_init U cls j)"
proof (cases j)
  case (JFunctor f xs)
  with assms obtain x xs' where xs: "xs = x # xs'" and x: "x = JStr ''connection_failed''"
    by (cases xs) (auto simp: args0_def prolog_args_def py_index_def)
  have r: "json_to_prolog U (JStr ''connection_failed'') = Inr ''connection_failed''"
    by (rule render_protocol_atoms)
  have n: "prolog_name U (JFunctor f xs) = Inr (JStr f)"
    by (simp add: prolog_name_def is_prolog_atom_def is_prolog_variable_def get_functor_def)
  show ?thesis
    unfolding JFunctor PrologError_init_def n
    using r by (simp add: xs x prolog_args_def py_len_def py_index_def transport_error_def
        del: json_to_prolog.simps)
qed (use assms in \<open>simp_all add: args0_def prolog_args_def\<close>)

lemma classify_state:
  assumes "classify_response U j (srv, th) = Some (r, srv', th')"
  shows "th' = th \<and>
         (srv' = srv \<or>
          srv' = srv\<lparr>connection_failed := True\<rparr> \<and> (\<exists>e. r = Inl e \<and> \<not> transport_error e))"
proof (cases "prolog_name U j = Inr (JStr ''exception'') \<and>
              args0 j = Inr (JStr ''connection_failed'')")
  case True
  then have "classify_response U j (srv, th) =
      Some (Inl (PrologError_init U PrologConnectionFailedError j),
            srv\<lparr>connection_failed := True\<rparr>, th)"
    by (simp add: classify_response_def bind_def lift_def set_connection_failed_def modify_def raise_def)
  with assms PrologError_init_connection_failed [of j U PrologConnectionFailedError] True
  show ?thesis by auto
next
  case False
  have "srv' = srv \<and> th' = th"
  proof (cases "prolog_name U j")
    case (Inl e)
    with assms show ?thesis by (simp add: classify_response_def bind_def lift_def)
  next
    case (Inr name)
    show ?thesis
    proof (cases "name = JStr ''exception''")
      case True
      show ?thesis
      proof (cases "args0 j")
        case (Inl e)
        with assms Inr True show ?thesis by (simp add: classify_response_def bind_def lift_def)
      next
        case a: (Inr a)
        with False Inr True have "a \<noteq> JStr ''connection_failed''" by simp
        with assms Inr True a show ?thesis
          by (simp add: classify_response_def bind_def lift_def return_def raise_def
              split: if_splits)
      qed
    next
      case ne: False
      show ?thesis
      proof (cases "name = JStr ''true''")
        case True
        with assms Inr ne show ?thesis
          by (auto simp: classify_response_def bind_def lift_def return_def raise_def
              split: if_splits sum.splits)
      next
        case False
        with assms Inr ne show ?thesis
          by (simp add: classify_response_def bind_def lift_def return_def split: if_splits)
      qed
    qed
  qed
  then show ?thesis by simp
qed

lemma classify_calm: "calm flag (classify_response U j)"
proof (rule calmI)
  fix s :: "server \<times> thread" and r s'
  assume c: "classify_response U j s = Some (r, s')"
  obtain srv th where s: "s = (srv, th)" by (cases s)
  obtain srv' th' where s': "s' = (srv', th')" by (cases s')
  from classify_state [of U j srv th r srv' th'] c s s'
  show "flag s' = flag s \<or> (\<exists>e. r = Inl e \<and> \<not> transport_error e)"
    by (auto simp: flag_def)
qed

lemma return_prolog_response_flag:
  "keeps_flag flag (return_prolog_response U loads)" "calm flag (return_prolog_response U loads)"
  unfolding return_prolog_response_def
  by (intro keeps_bind calm_bind receive_flag keeps_lift calm_lift classify_keeps classify_calm)+

subsection \<open>Sessions\<close>

lemma handshake_flag:
  "keeps_flag flag (bind (send U v) (\<lambda>_. bind (return_prolog_response U loads) (\<lambda>_. return ())))"
  "calm flag (bind (send U v) (\<lambda>_. bind (return_prolog_response U loads) (\<lambda>_. return ())))"
  by (intro keeps_bind calm_bind send_flag return_prolog_response_flag keeps_return calm_return)+

lemma PrologThread_stop_flag:
  "keeps_flag flag (PrologThread_stop U loads)" "calm flag (PrologThread_stop U loads)"
  unfolding PrologThread_stop_def
  by (intro keeps_branch keeps_bind keeps_except handshake_flag close_socket_flag keeps_return
      calm_branch calm_bind calm_except calm_return)+

text \<open>With the flag set, \<^verbatim>\<open>stop\<close> closes the socket without any exchange and returns.\<close>

lemma PrologThread_stop_flag_set:
  assumes "connection_failed srv"
  shows "PrologThread_stop U loads (srv, th) =
     (case socket th of
        None \<Rightarrow> Some (Inr (), srv, th)
      | Some s \<Rightarrow>
          Some (Inr (), srv\<lparr>events := events srv @ [Closed (sock_close s)]\<rparr>, th\<lparr>socket := None\<rparr>))"
  using assms
  by (simp add: PrologThread_stop_def branch_def has_socket_def bind_def return_def
      close_socket_def split: option.splits)

lemma thread_connect_flag:
  "keeps_flag flag (thread_connect U loads)" "calm flag (thread_connect U loads)"
proof -
  show "keeps_flag flag (thread_connect U loads)"
    unfolding thread_connect_def
    by (intro keeps_bind keeps_if new_socket_flag socket_connect_flag keeps_get send_flag
        receive_flag keeps_lift keeps_raise set_communication_thread_id_flag
        set_goal_thread_id_flag)
  show "calm flag (thread_connect U loads)"
    unfolding thread_connect_def
    by (intro calm_bind calm_if new_socket_flag socket_connect_flag calm_get send_flag
        receive_flag calm_lift calm_raise set_communication_thread_id_flag
        set_goal_thread_id_flag)
qed

text \<open>A server operation run from a session.\<close>

lemma on_server_flag:
  shows "keeps_flag connection_failed m \<Longrightarrow> keeps_flag flag (on_server m)"
    and "calm connection_failed m \<Longrightarrow> calm flag (on_server m)"
proof -
  have l: "m (fst s) = Some (r, fst s')" if "on_server m s = Some (r, s')" for s r s'
    using that unfolding on_server_def
    by (cases s; cases s') (auto split: option.splits prod.splits)
  show "keeps_flag flag (on_server m)" if k: "keeps_flag connection_failed m"
  proof (rule keeps_flagI)
    fix s r s'
    assume "flag s" and "on_server m s = Some (r, s')"
    with keeps_flagD [OF k _ l] show "flag s'" by (simp add: flag_def)
  qed
  show "calm flag (on_server m)" if c: "calm connection_failed m"
  proof (rule calmI)
    fix s r s'
    assume "on_server m s = Some (r, s')"
    from calmD [OF c l [OF this]]
    show "flag s' = flag s \<or> (\<exists>e. r = Inl e \<and> \<not> transport_error e)"
      by (simp add: flag_def)
  qed
qed

lemma never_flag: "keeps_flag fl never" "calm fl never"
  by (simp_all add: keeps_flag_def calm_def never_def)

lemma PrologThread_start_with_flag:
  shows "keeps_flag connection_failed server_start \<Longrightarrow>
         keeps_flag flag (PrologThread_start_with U server_start loads)"
    and "calm connection_failed server_start \<Longrightarrow>
         calm flag (PrologThread_start_with U server_start loads)"
proof -
  show "keeps_flag flag (PrologThread_start_with U server_start loads)"
    if k: "keeps_flag connection_failed server_start"
    unfolding PrologThread_start_with_def
    by (intro keeps_branch keeps_bind keeps_return thread_connect_flag on_server_flag(1) [OF k])
  show "calm flag (PrologThread_start_with U server_start loads)"
    if c: "calm connection_failed server_start"
    unfolding PrologThread_start_with_def
    by (intro calm_branch calm_bind calm_return thread_connect_flag on_server_flag(2) [OF c])
qed

lemma query_with_flag:
  shows "keeps_flag flag start \<Longrightarrow> keeps_flag flag (query_with U start loads v t)"
    and "calm flag start \<Longrightarrow> calm flag (query_with U start loads v t)"
proof -
  show "keeps_flag flag (query_with U start loads v t)" if k: "keeps_flag flag start"
    unfolding query_with_def Let_def
    by (intro keeps_bind keeps_branch k keeps_return send_flag return_prolog_response_flag)
  show "calm flag (query_with U start loads v t)" if c: "calm flag start"
    unfolding query_with_def Let_def
    by (intro calm_bind calm_branch c calm_return send_flag return_prolog_response_flag)
qed

text \<open>The session of a \<^verbatim>\<open>with\<close> statement.\<close>

lemma with_thread_keeps:
  assumes "keeps_flag flag start" and "keeps_flag flag stop" and "keeps_flag flag body"
  shows "keeps_flag connection_failed (with_thread start stop body)"
proof (rule keeps_flagI)
  fix srv r srv'
  assume f: "connection_failed srv" and w: "with_thread start stop body srv = Some (r, srv')"
  have f0: "flag (srv, PrologThread_init)" using f by (simp add: flag_def)
  from w obtain x srv1 th1 where st: "start (srv, PrologThread_init) = Some (x, srv1, th1)"
    by (auto simp: with_thread_def split: option.splits)
  from keeps_flagD [OF assms(1) f0 st] have f1: "flag (srv1, th1)" .
  show "connection_failed srv'"
  proof (cases x)
    case (Inl e)
    with w st have "srv' = srv1" by (simp add: with_thread_def)
    with f1 show ?thesis by (simp add: flag_def)
  next
    case (Inr u)
    with w st obtain y srv2 th2 where b: "body (srv1, th1) = Some (y, srv2, th2)"
      by (auto simp: with_thread_def split: option.splits)
    from keeps_flagD [OF assms(3) f1 b] have f2: "flag (srv2, th2)" .
    from w st Inr b obtain z srv3 th3 where s: "stop (srv2, th2) = Some (z, srv3, th3)"
      by (auto simp: with_thread_def split: option.splits)
    from keeps_flagD [OF assms(2) f2 s] have f3: "flag (srv3, th3)" .
    from w st Inr b s have "srv' = srv3"
      by (auto simp: with_thread_def split: sum.splits)
    with f3 show ?thesis by (simp add: flag_def)
  qed
qed

lemma with_thread_calm:
  assumes "keeps_flag flag start" and "calm flag start"
    and "keeps_flag flag body" and "calm flag body"
  shows "calm connection_failed (with_thread start (PrologThread_stop U loads) body)"
proof (rule calmI)
  fix srv r srv'
  assume w: "with_thread start (PrologThread_stop U loads) body srv = Some (r, srv')"
  from w obtain x srv1 th1 where st: "start (srv, PrologThread_init) = Some (x, srv1, th1)"
    by (auto simp: with_thread_def split: option.splits)
  show "connection_failed srv' = connection_failed srv \<or> (\<exists>e. r = Inl e \<and> \<not> transport_error e)"
  proof (cases x)
    case (Inl e)
    with w st have "srv' = srv1" and "r = Inl e" by (simp_all add: with_thread_def)
    with calmD [OF assms(2) st] Inl show ?thesis by (simp add: flag_def)
  next
    case (Inr u)
    with calmD [OF assms(2) st] have c1: "connection_failed srv1 = connection_failed srv"
      by (simp add: flag_def)
    from w st Inr obtain y srv2 th2 where b: "body (srv1, th1) = Some (y, srv2, th2)"
      by (auto simp: with_thread_def split: option.splits)
    from w st Inr b obtain z srv3 th3
      where s: "PrologThread_stop U loads (srv2, th2) = Some (z, srv3, th3)"
      by (auto simp: with_thread_def split: option.splits)
    show ?thesis
    proof (cases "connection_failed srv2")
      case True
      from PrologThread_stop_flag_set [OF True, of U loads th2] s
      have z: "z = Inr ()" and c3: "connection_failed srv3"
        using True by (auto split: option.splits)
      from w st Inr b s z have r: "r = y" and s3: "srv' = srv3"
        by (simp_all add: with_thread_def)
      from calmD [OF assms(4) b] show ?thesis
      proof
        assume "flag (srv2, th2) = flag (srv1, th1)"
        with True c1 c3 s3 show ?thesis by (simp add: flag_def)
      next
        assume "\<exists>e. y = Inl e \<and> \<not> transport_error e"
        with r show ?thesis by simp
      qed
    next
      case False
      have c2: "connection_failed srv1 = False"
      proof (rule ccontr)
        assume "connection_failed srv1 \<noteq> False"
        then have "flag (srv1, th1)" by (simp add: flag_def)
        from keeps_flagD [OF assms(3) this b] False show False by (simp add: flag_def)
      qed
      from w st Inr b s have s3: "srv' = srv3"
        by (auto simp: with_thread_def split: sum.splits)
      from calmD [OF PrologThread_stop_flag(2) s]
      show ?thesis
      proof
        assume "flag (srv3, th3) = flag (srv2, th2)"
        with False c2 c1 s3 show ?thesis by (simp add: flag_def)
      next
        assume "\<exists>e. z = Inl e \<and> \<not> transport_error e"
        then obtain e where z: "z = Inl e" and ne: "\<not> transport_error e" by blast
        with w st Inr b s have "r = Inl e" by (simp add: with_thread_def)
        with ne show ?thesis by simp
      qed
    qed
  qed
qed

subsection \<open>The public operations\<close>

lemma launch_flag: "keeps_flag connection_failed launch" "calm connection_failed launch"
  by (rule untouched_server, auto simp: launch_def split: option.splits)+

lemma readline_flag: "keeps_flag connection_failed readline" "calm connection_failed readline"
  by (rule untouched_server, auto simp: readline_def split: option.splits list.splits)+


lemma tracing_session_flag:
  "keeps_flag connection_failed
     (with_thread (PrologThread_start_with U never loads) (PrologThread_stop U loads)
        (query_with U (PrologThread_start_with U never loads) loads v t))"
  "calm connection_failed
     (with_thread (PrologThread_start_with U never loads) (PrologThread_stop U loads)
        (query_with U (PrologThread_start_with U never loads) loads v t))"
  by (intro with_thread_keeps with_thread_calm PrologThread_start_with_flag query_with_flag
      PrologThread_stop_flag never_flag)+

lemma PrologServer_start_flag:
  "keeps_flag connection_failed (PrologServer_start U loads)"
  "calm connection_failed (PrologServer_start U loads)"
proof -
  show "keeps_flag connection_failed (PrologServer_start U loads)"
    unfolding PrologServer_start_def
    by (intro keeps_branch keeps_bind keeps_if keeps_return keeps_raise keeps_lift
        launch_flag readline_flag tracing_session_flag keeps_modify) simp_all
  show "calm connection_failed (PrologServer_start U loads)"
    unfolding PrologServer_start_def
    by (intro calm_branch calm_bind calm_if calm_return calm_raise calm_lift
        launch_flag readline_flag tracing_session_flag calm_modify) simp_all
qed

lemma PrologThread_start_flag:
  "keeps_flag flag (PrologThread_start U loads)" "calm flag (PrologThread_start U loads)"
  unfolding PrologThread_start_def
  by (intro PrologThread_start_with_flag PrologServer_start_flag)+

lemma query_flag:
  "keeps_flag flag (query U loads v t)" "calm flag (query U loads v t)"
  unfolding query_def
  by (intro query_with_flag PrologThread_start_flag)+

lemma query_async_flag:
  "keeps_flag flag (query_async U loads v fa t)" "calm flag (query_async U loads v fa t)"
proof -
  show "keeps_flag flag (query_async U loads v fa t)"
    unfolding query_async_def Let_def
    by (intro keeps_bind keeps_branch keeps_return PrologThread_start_flag send_flag
        return_prolog_response_flag)
  show "calm flag (query_async U loads v fa t)"
    unfolding query_async_def Let_def
    by (intro calm_bind calm_branch calm_return PrologThread_start_flag send_flag
        return_prolog_response_flag)
qed

lemma cancel_query_async_flag:
  "keeps_flag flag (cancel_query_async U loads)" "calm flag (cancel_query_async U loads)"
  unfolding cancel_query_async_def by (rule handshake_flag)+

lemma query_async_result_flag:
  "keeps_flag flag (query_async_result U loads t)" "calm flag (query_async_result U loads t)"
  unfolding query_async_result_def Let_def
  by (intro keeps_bind calm_bind send_flag return_prolog_response_flag)+




subsection \<open>Transport errors\<close>

lemma started_bind:
  "has_socket st \<Longrightarrow> bind (branch has_socket (return ()) m) f st = f () st"
  by (simp add: bind_def branch_def return_def)

lemma socket_sendall_same_flag: "socket_sendall d st = Some (r, st') \<Longrightarrow> flag st' = flag st"
  by (cases st) (auto simp: socket_sendall_def flag_def split: option.splits prod.splits)

lemma send_same_flag:
  assumes "send U v st = Some (r, st')"
  shows "flag st' = flag st"
proof -
  from assms obtain d1 d2 where
    b: "bind (socket_sendall d1) (\<lambda>_. socket_sendall d2) st = Some (r, st')"
    by (simp add: send_def Let_def)
  from b show ?thesis
  proof (cases rule: bind_cases)
    case (raised e)
    then show ?thesis by (simp add: socket_sendall_same_flag)
  next
    case (returned a s1)
    then show ?thesis by (simp add: socket_sendall_same_flag)
  qed
qed

lemma receive_same_flag: "receive st = Some (r, st') \<Longrightarrow> flag st' = flag st"
  by (cases st)
    (auto simp: receive_def flag_def split: option.splits prod.splits sum.splits)

text \<open>An exchange: one message sent, one reply read and classified.\<close>

lemma exchange_send_raises:
  "send U msg st = Some (Inl e, st1) \<Longrightarrow> bind (send U msg) f st = Some (Inl e, st1)"
  by (simp add: bind_def)

lemma exchange_receive_raises:
  assumes "send U msg st = Some (Inr (), st1)" and "receive st1 = Some (Inl e, st2)"
  shows "bind (send U msg) (\<lambda>_. return_prolog_response U loads) st = Some (Inl e, st2)"
    and "bind (send U msg) (\<lambda>_. bind (return_prolog_response U loads) f) st = Some (Inl e, st2)"
  using assms by (simp_all add: bind_def return_prolog_response_def)

lemma exchange_loads_raises:
  assumes "send U msg st = Some (Inr (), st1)" and "receive st1 = Some (Inr text, st2)"
    and "loads text = Inl e"
  shows "bind (send U msg) (\<lambda>_. return_prolog_response U loads) st = Some (Inl e, st2)"
    and "bind (send U msg) (\<lambda>_. bind (return_prolog_response U loads) f) st = Some (Inl e, st2)"
  using assms by (simp_all add: bind_def return_prolog_response_def lift_def)

lemma raises_unwrappedI:
  assumes "\<And>st st1 e. has_socket st \<Longrightarrow> send U msg st = Some (Inl e, st1) \<Longrightarrow>
             m st = Some (Inl e, st1)"
    and "\<And>st st1 st2 e. has_socket st \<Longrightarrow> send U msg st = Some (Inr (), st1) \<Longrightarrow>
             receive st1 = Some (Inl e, st2) \<Longrightarrow> m st = Some (Inl e, st2)"
    and "\<And>st st1 st2 reply e. has_socket st \<Longrightarrow> send U msg st = Some (Inr (), st1) \<Longrightarrow>
             receive st1 = Some (Inr reply, st2) \<Longrightarrow> loads reply = Inl e \<Longrightarrow>
             m st = Some (Inl e, st2)"
  shows "raises_unwrapped U loads msg m"
  unfolding raises_unwrapped_def
proof (intro allI impI conjI)
  fix st st1 st2 :: "server \<times> thread" and reply :: string and e :: error
  assume h: "has_socket st"
  {
    assume s: "send U msg st = Some (Inl e, st1)"
    from assms(1) [OF h s] show "m st = Some (Inl e, st1)" .
    from send_same_flag [OF s] show "flag st1 = flag st" .
  }
  {
    assume "send U msg st = Some (Inr (), st1) \<and> receive st1 = Some (Inl e, st2)"
    then have s: "send U msg st = Some (Inr (), st1)" and r: "receive st1 = Some (Inl e, st2)"
      by simp_all
    from assms(2) [OF h s r] show "m st = Some (Inl e, st2)" .
    from send_same_flag [OF s] receive_same_flag [OF r] show "flag st2 = flag st" by simp
  }
  {
    assume "send U msg st = Some (Inr (), st1) \<and> receive st1 = Some (Inr reply, st2) \<and>
            loads reply = Inl e"
    then have s: "send U msg st = Some (Inr (), st1)"
      and r: "receive st1 = Some (Inr reply, st2)" and l: "loads reply = Inl e"
      by simp_all
    from assms(3) [OF h s r l] show "m st = Some (Inl e, st2)" .
    from send_same_flag [OF s] receive_same_flag [OF r] show "flag st2 = flag st" by simp
  }
qed

lemma query_raises_unwrapped:
  "raises_unwrapped U loads
     (''run(('' @ rstrip [NL, CHR ''.''] (strip U v) @ ''), '' @ timeout_string ''_'' t @ '').'' @ [NL])
     (query U loads v t)"
  unfolding query_def query_with_def Let_def
  by (rule raises_unwrappedI)
    (simp_all add: started_bind exchange_send_raises exchange_receive_raises
      exchange_loads_raises)

lemma query_async_raises_unwrapped:
  "raises_unwrapped U loads
     (''run_async(('' @ rstrip [NL, CHR ''.''] (strip U v) @ ''), '' @ timeout_string ''_'' t @
      '', '' @ (if find_all then ''true'' else ''false'') @ '').'' @ [NL])
     (query_async U loads v find_all t)"
  unfolding query_async_def Let_def
  by (rule raises_unwrappedI)
    (simp_all add: started_bind exchange_send_raises exchange_receive_raises
      exchange_loads_raises)

lemma query_async_result_raises_unwrapped:
  "raises_unwrapped U loads (''async_result('' @ timeout_string ''-1'' t @ '').'' @ [NL])
     (query_async_result U loads t)"
  unfolding query_async_result_def Let_def
  by (rule raises_unwrappedI)
    (simp_all add: exchange_send_raises exchange_receive_raises exchange_loads_raises)

lemma cancel_query_async_raises_unwrapped:
  "raises_unwrapped U loads (''cancel_async.'' @ [NL]) (cancel_query_async U loads)"
  unfolding cancel_query_async_def
  by (rule raises_unwrappedI)
    (simp_all add: exchange_send_raises exchange_receive_raises exchange_loads_raises)

text \<open>
  C7 (as amended). When, during \<^verbatim>\<open>query\<close>, \<^verbatim>\<open>query_async\<close>,
  \<^verbatim>\<open>query_async_result\<close> or \<^verbatim>\<open>cancel_query_async\<close> on a started session, the socket
  raises on sending or on receiving, the length header does not parse, or the body does
  not decode as UTF-8 or as JSON, the operation raises that very error to its caller,
  not wrapped in an error of the module, and the flag \<^verbatim>\<open>connection_failed\<close> of the
  server handle is what it was before the call. None of the four operations changes the
  flag except in a call that raises an error that is not a transport error.
\<close>

theorem transport_error_reaches_caller_unchanged:
  "raises_unwrapped U loads
     (''run(('' @ rstrip [NL, CHR ''.''] (strip U v) @ ''), '' @ timeout_string ''_'' t @ '').'' @ [NL])
     (query U loads v t) \<and>
   raises_unwrapped U loads
     (''run_async(('' @ rstrip [NL, CHR ''.''] (strip U v) @ ''), '' @ timeout_string ''_'' t @
      '', '' @ (if find_all then ''true'' else ''false'') @ '').'' @ [NL])
     (query_async U loads v find_all t) \<and>
   raises_unwrapped U loads (''async_result('' @ timeout_string ''-1'' t @ '').'' @ [NL])
     (query_async_result U loads t) \<and>
   raises_unwrapped U loads (''cancel_async.'' @ [NL]) (cancel_query_async U loads) \<and>
   calm flag (query U loads v t) \<and>
   calm flag (query_async U loads v find_all t) \<and>
   calm flag (query_async_result U loads t) \<and>
   calm flag (cancel_query_async U loads)"
  by (intro conjI query_raises_unwrapped query_async_raises_unwrapped
      query_async_result_raises_unwrapped cancel_query_async_raises_unwrapped
      query_flag query_async_flag query_async_result_flag cancel_query_async_flag)

theorem transport_error_reaches_caller_unchanged_witness:
  "has_socket (new_server, session_on (open_socket [RecvError])) \<and>
   send sample_unicode (''cancel_async.'' @ [NL])
     (new_server, session_on (open_socket [RecvError])) =
   Some (Inr (), new_server,
         session_on ((open_socket [RecvError])\<lparr>sent := [''14.'' @ [NL], ''cancel_async.'' @ [NL]]\<rparr>)) \<and>
   receive
     (new_server,
      session_on ((open_socket [RecvError])\<lparr>sent := [''14.'' @ [NL], ''cancel_async.'' @ [NL]]\<rparr>)) =
   Some (Inl OSError, new_server,
         session_on ((open_socket [])\<lparr>sent := [''14.'' @ [NL], ''cancel_async.'' @ [NL]]\<rparr>)) \<and>
   cancel_query_async sample_unicode (loads_only [] false_reply)
     (new_server, session_on (open_socket [RecvError])) =
   Some (Inl OSError, new_server,
         session_on ((open_socket [])\<lparr>sent := [''14.'' @ [NL], ''cancel_async.'' @ [NL]]\<rparr>)) \<and>
   flag (new_server,
         session_on ((open_socket [])\<lparr>sent := [''14.'' @ [NL], ''cancel_async.'' @ [NL]]\<rparr>)) =
   flag (new_server, session_on (open_socket [RecvError]))"
proof -
  let ?L = "loads_only [] false_reply"
  let ?s0 = "(new_server, session_on (open_socket [RecvError]))"
  let ?s1 = "(new_server,
     session_on ((open_socket [RecvError])\<lparr>sent := [''14.'' @ [NL], ''cancel_async.'' @ [NL]]\<rparr>))"
  let ?s2 = "(new_server,
     session_on ((open_socket [])\<lparr>sent := [''14.'' @ [NL], ''cancel_async.'' @ [NL]]\<rparr>))"
  have h: "has_socket ?s0" by code_simp
  have s: "send sample_unicode (''cancel_async.'' @ [NL]) ?s0 = Some (Inr (), ?s1)" by code_simp
  have r: "receive ?s1 = Some (Inl OSError, ?s2)" by code_simp
  from transport_error_reaches_caller_unchanged [where U = sample_unicode and loads = "?L"]
  have "raises_unwrapped sample_unicode ?L (''cancel_async.'' @ [NL])
          (cancel_query_async sample_unicode ?L)"
    by simp
  with h s r have "cancel_query_async sample_unicode ?L ?s0 = Some (Inl OSError, ?s2) \<and>
      flag ?s2 = flag ?s0"
    unfolding raises_unwrapped_def by blast
  with h s r show ?thesis by simp
qed

text \<open>
  No transport error is turned into \<^verbatim>\<open>PrologConnectionFailedError\<close> and none sets the
  flag: a \<^verbatim>\<open>recv\<close> that raises, a length header \<^verbatim>\<open>x\<close> and a body that is not JSON
  reach the caller of \<^verbatim>\<open>query\<close> as \<^verbatim>\<open>OSError\<close>, \<^verbatim>\<open>ValueError\<close> and the error of
  \<^verbatim>\<open>json.loads\<close>, and the flag stays \<^verbatim>\<open>False\<close>.
\<close>

theorem query_raw_transport_error_counterexample:
  "query sample_unicode (loads_only [] false_reply) ''atom(a)'' None
     (new_server, session_on (open_socket [RecvError])) =
   Some (Inl OSError, new_server,
         session_on ((open_socket [])\<lparr>sent := [''19.'' @ [NL], ''run((atom(a)), _).'' @ [NL]]\<rparr>)) \<and>
   query sample_unicode (loads_only [] false_reply) ''atom(a)'' None
     (new_server, session_on (open_socket [Data (''x.'' @ [NL])])) =
   Some (Inl ValueError, new_server,
         session_on ((open_socket [])\<lparr>sent := [''19.'' @ [NL], ''run((atom(a)), _).'' @ [NL]]\<rparr>)) \<and>
   query sample_unicode (loads_only [] false_reply) ''atom(a)'' None
     (new_server, session_on (open_socket [Data (''5.'' @ [NL] @ ''oops'' @ [NL])])) =
   Some (Inl JSONDecodeError, new_server,
         session_on ((open_socket [])\<lparr>sent := [''19.'' @ [NL], ''run((atom(a)), _).'' @ [NL]]\<rparr>)) \<and>
   connection_failed new_server = False"
  by code_simp

subsection \<open>The flag is set and never reset\<close>




subsection \<open>Stopping\<close>

text \<open>
  The stop paths that hold: a stopped session stays as it is, and
  \<^verbatim>\<open>PrologServer.stop\<close> kills the process when asked to or when the flag is set.
\<close>

lemma PrologThread_stop_stopped:
  "socket th = None \<Longrightarrow> PrologThread_stop U loads (srv, th) = Some (Inr (), srv, th)"
  by (simp add: PrologThread_stop_def branch_def has_socket_def return_def)

lemma PrologServer_stop_kills:
  assumes "process srv = Some p" and "kill \<or> connection_failed srv"
  shows "PrologServer_stop U loads kill srv =
     Some (Inr (),
           srv\<lparr>events := events srv @ [Kill, Wait] @
                    (case unix_domain_socket srv of
                       None \<Rightarrow> []
                     | Some path \<Rightarrow> if path = [] then [] else [Remove path]),
                process := None\<rparr>)"
  using assms
  by (auto simp: PrologServer_stop_def branch_def has_process_def bind_def log_event_def
      modify_def get_def return_def truthy_def split: option.splits)

lemma bind_hangs_first: "m s = None \<Longrightarrow> bind m f s = None"
  by (simp add: bind_def)

lemma bind_hangs: "m s = Some (Inr a, s') \<Longrightarrow> f a s' = None \<Longrightarrow> bind m f s = None"
  by (simp add: bind_def)

lemma except_OSError_hangs: "m s = None \<Longrightarrow> except_OSError m s = None"
  by (simp add: except_OSError_def)

lemma PrologThread_stop_hangs:
  assumes "socket th = Some s" and "connected s" and "\<not> closed s" and "\<not> send_fails s"
    and "incoming s = []" and "\<not> connection_failed srv"
  shows "PrologThread_stop U loads (srv, th) = None"
proof -
  let ?s = "s\<lparr>sent := sent s @
         [show_nat (length (rstrip [NL, CHR ''.''] (strip U (''close.'' @ [NL])) @ [CHR ''.'', NL])) @ [CHR ''.'', NL],
          rstrip [NL, CHR ''.''] (strip U (''close.'' @ [NL])) @ [CHR ''.'', NL]]\<rparr>"
  let ?th = "th\<lparr>socket := Some ?s\<rparr>"
  have snd: "send U (''close.'' @ [NL]) (srv, th) = Some (Inr (), srv, ?th)"
    using assms(1-4) by (rule send_ok)
  have "receive_loop rstate_init ?s = None"
    using assms by (intro receive_loop_closed) (simp_all add: loop_condition_def rstate_init_def)
  then have "receive (srv, ?th) = None"
    by (simp add: receive_def)
  then have "return_prolog_response U loads (srv, ?th) = None"
    unfolding return_prolog_response_def by (rule bind_hangs_first)
  then have inner: "bind (return_prolog_response U loads) (\<lambda>_. return ()) (srv, ?th) = None"
    by (rule bind_hangs_first)
  from snd inner have "bind (send U (''close.'' @ [NL]))
      (\<lambda>_. bind (return_prolog_response U loads) (\<lambda>_. return ())) (srv, th) = None"
    by (rule bind_hangs [where f = "\<lambda>_. bind (return_prolog_response U loads) (\<lambda>_. return ())"])
  then have "except_OSError (bind (send U (''close.'' @ [NL]))
      (\<lambda>_. bind (return_prolog_response U loads) (\<lambda>_. return ()))) (srv, th) = None"
    by (rule except_OSError_hangs)
  then have "branch (\<lambda>st. \<not> connection_failed (fst st))
      (except_OSError (bind (send U (''close.'' @ [NL]))
         (\<lambda>_. bind (return_prolog_response U loads) (\<lambda>_. return ()))))
      (return ()) (srv, th) = None"
    using assms(6) by (simp add: branch_def)
  then have "bind (branch (\<lambda>st. \<not> connection_failed (fst st))
      (except_OSError (bind (send U (''close.'' @ [NL]))
         (\<lambda>_. bind (return_prolog_response U loads) (\<lambda>_. return ()))))
      (return ())) (\<lambda>_. close_socket) (srv, th) = None"
    by (rule bind_hangs_first)
  then show ?thesis
    using assms(1) by (simp add: PrologThread_stop_def branch_def has_socket_def)
qed

text \<open>
  C9 (the code does otherwise). \<^verbatim>\<open>PrologThread.stop\<close> does not close the socket in
  all cases. With the flag unset and the peer gone (every \<^verbatim>\<open>recv\<close> returns no bytes) it
  never returns. When the reply to \<^verbatim>\<open>close\<close> has the length header \<^verbatim>\<open>x\<close>, or a body
  that is not JSON, it raises \<^verbatim>\<open>ValueError\<close> or the error of \<^verbatim>\<open>json.loads\<close>, and
  the session still holds the socket, not closed.
\<close>

theorem stop_leaves_socket_open:
  "PrologThread_stop U (loads_only (''reply'' @ [NL]) (true_reply [[]]))
     (new_server, session_on (open_socket [])) = None \<and>
   PrologThread_stop U (loads_only (''reply'' @ [NL]) (true_reply [[]]))
     (new_server, session_on (open_socket [Data (''x.'' @ [NL])])) =
   Some (Inl ValueError, new_server,
         session_on ((open_socket [])\<lparr>sent := [''7.'' @ [NL], ''close.'' @ [NL]]\<rparr>)) \<and>
   PrologThread_stop U (loads_only (''reply'' @ [NL]) (true_reply [[]]))
     (new_server, session_on (open_socket [Data (''5.'' @ [NL] @ ''oops'' @ [NL])])) =
   Some (Inl JSONDecodeError, new_server,
         session_on ((open_socket [])\<lparr>sent := [''7.'' @ [NL], ''close.'' @ [NL]]\<rparr>))"
proof -
  have a: "PrologThread_stop U (loads_only (''reply'' @ [NL]) (true_reply [[]]))
     (new_server, session_on (open_socket [])) = None"
    by (rule PrologThread_stop_hangs [where s = "open_socket []"])
       (simp_all add: session_on_def open_socket_def new_server_def PrologServer_init_def)
  have b: "PrologThread_stop U (loads_only (''reply'' @ [NL]) (true_reply [[]]))
     (new_server, session_on (open_socket [Data (''x.'' @ [NL])])) =
   Some (Inl ValueError, new_server,
         session_on ((open_socket [])\<lparr>sent := [''7.'' @ [NL], ''close.'' @ [NL]]\<rparr>))"
    by code_simp
  have c: "PrologThread_stop U (loads_only (''reply'' @ [NL]) (true_reply [[]]))
     (new_server, session_on (open_socket [Data (''5.'' @ [NL] @ ''oops'' @ [NL])])) =
   Some (Inl JSONDecodeError, new_server,
         session_on ((open_socket [])\<lparr>sent := [''7.'' @ [NL], ''close.'' @ [NL]]\<rparr>))"
    by code_simp
  from a b c show ?thesis by simp
qed


end
